theory Spec2Isabelle
  imports Main "HOL-Library.Char_ord" "HOL-Library.List_Lexorder" "HOL-Library.Product_Lexorder"
begin

chapter \<open>Activity feed: consumer, query service, cursor codec and circuit breaker\<close>

text \<open>
  A shallow embedding of the parts of the activity-feed service that its specification
  makes claims about: the circuit breaker (app/middleware/circuit_breaker.py), the cursor
  codec (app/utils/cursor.py), the relational repository
  (app/repositories/transaction_repository.py), the cache keys and read-through cache of the
  query service (app/services/transaction_service.py), the single-record route
  (app/api/routes/transactions.py) and the batch loop of the message consumer
  (app/services/message_consumer.py).

  Conventions. A Python \<open>str\<close> is a \<^typ>\<open>string\<close>. Exceptions are values: a function that
  can raise returns a sum whose \<open>Inl\<close> side is the exception. Mutable objects are records
  that are passed in and returned updated. External systems (the wrapped callable of a
  breaker, the search index, the relational session, the log producer) are represented by
  the outcome they produce for the call at hand.
\<close>

section \<open>Circuit breaker (app/middleware/circuit\_breaker.py)\<close>

datatype CircuitState = CLOSED | OPEN | HALF_OPEN

text \<open>
  Instants are counted in microseconds, the resolution of \<open>datetime\<close>; \<open>timeout\<close> is in
  seconds as in the source. \<open>expected_exception\<close> is the class test
  \<open>isinstance(e, self.expected_exception)\<close>.
\<close>

record 'e CircuitBreaker =
  failure_threshold :: int
  timeout :: int
  expected_exception :: "'e \<Rightarrow> bool"
  failure_count :: int
  last_failure_time :: "int option"
  state :: CircuitState
  success_count :: int
  half_open_success_threshold :: int

definition CircuitBreaker_init :: "int \<Rightarrow> int \<Rightarrow> ('e \<Rightarrow> bool) \<Rightarrow> 'e CircuitBreaker" where
  "CircuitBreaker_init threshold tmo expected =
     \<lparr> failure_threshold = threshold, timeout = tmo, expected_exception = expected,
       failure_count = 0, last_failure_time = None, state = CLOSED,
       success_count = 0, half_open_success_threshold = 2 \<rparr>"

text \<open>
  \<open>_should_attempt_reset\<close>, with \<open>now\<close> for \<open>datetime.now()\<close>. The source computes
  \<open>elapsed = (now - last_failure_time).total_seconds()\<close>, the whole number of microseconds
  divided by \<open>10**6\<close> and rounded to the nearest double, and tests \<open>elapsed >= timeout\<close>,
  a comparison of a double with an \<open>int\<close> that Python decides exactly. Below, the test is
  made on the microseconds themselves. The two agree whenever \<open>timeout\<close> is between 0 and
  \<open>2**34\<close> seconds (544 years): up to there two neighbouring doubles are less than two
  microseconds apart, so a duration that is a whole number of microseconds short of
  \<open>timeout\<close> is not rounded up to it. For a larger \<open>timeout\<close> the
  source can admit a call up to a few microseconds early; that range is outside this
  model.
\<close>

definition should_attempt_reset :: "int \<Rightarrow> 'e CircuitBreaker \<Rightarrow> bool" where
  "should_attempt_reset now cb =
     (case last_failure_time cb of
        None \<Rightarrow> False
      | Some t \<Rightarrow> now - t \<ge> timeout cb * 1000000)"

definition on_success :: "'e CircuitBreaker \<Rightarrow> 'e CircuitBreaker" where
  "on_success cb =
     (if state cb = HALF_OPEN then
        (let cb1 = cb\<lparr>success_count := success_count cb + 1\<rparr>
         in if success_count cb1 \<ge> half_open_success_threshold cb1
            then cb1\<lparr>state := CLOSED, failure_count := 0, success_count := 0\<rparr>
            else cb1)
      else if state cb = CLOSED then cb\<lparr>failure_count := 0\<rparr>
      else cb)"

definition on_failure :: "int \<Rightarrow> 'e CircuitBreaker \<Rightarrow> 'e CircuitBreaker" where
  "on_failure now cb =
     (let cb1 = cb\<lparr>failure_count := failure_count cb + 1, last_failure_time := Some now\<rparr>
      in if state cb1 = HALF_OPEN then cb1\<lparr>state := OPEN, success_count := 0\<rparr>
         else if state cb1 = CLOSED then
           (if failure_count cb1 \<ge> failure_threshold cb1 then cb1\<lparr>state := OPEN\<rparr> else cb1)
         else cb1)"

text \<open>
  What a call raises: the breaker's own \<open>CircuitBreakerOpenError\<close>, or the exception of the
  wrapped callable, re-raised.
\<close>

datatype 'e call_error = CircuitBreakerOpenError | Raised 'e

text \<open>
  One invocation of the wrapped callable: the instant at which \<open>call\<close> is entered, the
  instant at which the callable comes back, and what it does (\<open>Inl e\<close>: it raises \<open>e\<close>;
  \<open>Inr v\<close>: it returns \<open>v\<close>).
\<close>

record ('e, 'a) attempt =
  started :: int
  finished :: int
  behaviour :: "'e + 'a"

text \<open>
  The result of \<open>call\<close>: what the caller sees, whether the wrapped callable was invoked at
  all, and the breaker afterwards.
\<close>

record ('e, 'a) call_result =
  outcome :: "'e call_error + 'a"
  invoked :: bool
  breaker :: "'e CircuitBreaker"

definition run_func :: "('e, 'a) attempt \<Rightarrow> 'e CircuitBreaker \<Rightarrow> ('e, 'a) call_result" where
  "run_func a cb =
     (case behaviour a of
        Inr v \<Rightarrow> \<lparr> outcome = Inr v, invoked = True, breaker = on_success cb \<rparr>
      | Inl e \<Rightarrow>
          if expected_exception cb e
          then \<lparr> outcome = Inl (Raised e), invoked = True, breaker = on_failure (finished a) cb \<rparr>
          else \<lparr> outcome = Inl (Raised e), invoked = True, breaker = cb \<rparr>)"

text \<open>
  \<open>CircuitBreaker.call\<close>; the first argument is \<open>settings.circuit_breaker_enabled\<close>.
\<close>

definition call :: "bool \<Rightarrow> ('e, 'a) attempt \<Rightarrow> 'e CircuitBreaker \<Rightarrow> ('e, 'a) call_result" where
  "call circuit_breaker_enabled a cb =
     (if \<not> circuit_breaker_enabled then
        \<lparr> outcome = (case behaviour a of Inl e \<Rightarrow> Inl (Raised e) | Inr v \<Rightarrow> Inr v),
          invoked = True, breaker = cb \<rparr>
      else if state cb = OPEN then
        (if should_attempt_reset (started a) cb
         then run_func a (cb\<lparr>state := HALF_OPEN, success_count := 0\<rparr>)
         else \<lparr> outcome = Inl CircuitBreakerOpenError, invoked = False, breaker = cb \<rparr>)
      else run_func a cb)"

text \<open>A sequence of calls on the same breaker, in order.\<close>

fun calls :: "bool \<Rightarrow> ('e, 'a) attempt list \<Rightarrow> 'e CircuitBreaker \<Rightarrow> 'e CircuitBreaker" where
  "calls en [] cb = cb"
| "calls en (a # as) cb = calls en as (breaker (call en a cb))"

definition reset :: "'e CircuitBreaker \<Rightarrow> 'e CircuitBreaker" where
  "reset cb = cb\<lparr>state := CLOSED, failure_count := 0, success_count := 0,
                 last_failure_time := None\<rparr>"

text \<open>An attempt whose callable raises an exception of the expected class.\<close>

definition expected_failure :: "'e CircuitBreaker \<Rightarrow> ('e, 'a) attempt \<Rightarrow> bool" where
  "expected_failure cb a = (case behaviour a of Inl e \<Rightarrow> expected_exception cb e | Inr _ \<Rightarrow> False)"

definition succeeds :: "('e, 'a) attempt \<Rightarrow> bool" where
  "succeeds a = (case behaviour a of Inl _ \<Rightarrow> False | Inr _ \<Rightarrow> True)"

text \<open>An example attempt for concrete runs: entered at \<open>t\<close>, raising one microsecond later.\<close>

definition fail_at :: "int \<Rightarrow> (unit, nat) attempt" where
  "fail_at t = \<lparr> started = t, finished = t + 1, behaviour = Inl () \<rparr>"

definition ok_at :: "int \<Rightarrow> (unit, nat) attempt" where
  "ok_at t = \<lparr> started = t, finished = t + 1, behaviour = Inr 0 \<rparr>"

definition any_exception :: "unit \<Rightarrow> bool" where
  "any_exception e = True"

text \<open>
  A second example with two classes of exception, of which the breaker expects one
  (\<open>CircuitBreaker(expected_exception=ConnectionError)\<close>).
\<close>

datatype example_error = ConnectionError | OtherError

definition only_connection_errors :: "example_error \<Rightarrow> bool" where
  "only_connection_errors e = (e = ConnectionError)"

definition raise_at :: "example_error \<Rightarrow> int \<Rightarrow> (example_error, nat) attempt" where
  "raise_at e t = \<lparr> started = t, finished = t + 1, behaviour = Inl e \<rparr>"

text \<open>
  The life of a breaker object: after the constructor, the program only ever applies
  \<open>call\<close> and \<open>reset\<close> to it (\<open>get_state\<close> reads it and changes nothing).
\<close>

datatype ('e, 'a) operation = Call "('e, 'a) attempt" | Reset

fun operations ::
  "bool \<Rightarrow> ('e, 'a) operation list \<Rightarrow> 'e CircuitBreaker \<Rightarrow> 'e CircuitBreaker" where
  "operations en [] cb = cb"
| "operations en (Call a # ops) cb = operations en ops (breaker (call en a cb))"
| "operations en (Reset # ops) cb = operations en ops (reset cb)"

section \<open>Strings, numbers and instants\<close>

text \<open>
  A Python \<open>str\<close> is represented by its UTF-8 encoding, one \<^typ>\<open>char\<close> per byte, so that
  \<open>str.encode()\<close> is the identity. An ASCII string is the list of its characters. Python
  counts characters, not bytes: \<open>s[:n]\<close> keeps the bytes of the first \<open>n\<close> characters.
\<close>

definition is_continuation :: "char \<Rightarrow> bool" where
  "is_continuation c = (128 \<le> (of_char c :: nat) \<and> (of_char c :: nat) < 192)"

fun str_prefix :: "nat \<Rightarrow> string \<Rightarrow> string" where
  "str_prefix n [] = []"
| "str_prefix n (c # cs) =
     (if is_continuation c then c # str_prefix n cs
      else (case n of 0 \<Rightarrow> [] | Suc m \<Rightarrow> c # str_prefix m cs))"

definition digit_char :: "nat \<Rightarrow> char" where
  "digit_char d = char_of (48 + d)"

fun str_of_nat :: "nat \<Rightarrow> string" where
  "str_of_nat n = (if n < 10 then [digit_char n]
                   else str_of_nat (n div 10) @ [digit_char (n mod 10)])"

declare str_of_nat.simps [simp del]

text \<open>\<open>str(i)\<close> for an \<open>int\<close>, which is also how an f-string formats it.\<close>

definition str_of_int :: "int \<Rightarrow> string" where
  "str_of_int i = (if i < 0 then CHR ''-'' # str_of_nat (nat (- i)) else str_of_nat (nat i))"

text \<open>\<open>sep.join(parts)\<close>.\<close>

fun join :: "string \<Rightarrow> string list \<Rightarrow> string" where
  "join sep [] = []"
| "join sep [x] = x"
| "join sep (x # y # ys) = x @ sep @ join sep (y # ys)"

text \<open>The truth value of an \<open>Optional[str]\<close>: \<open>None\<close> and the empty string are false.\<close>

fun truthy :: "string option \<Rightarrow> bool" where
  "truthy None = False"
| "truthy (Some s) = (s \<noteq> [])"

text \<open>
  A \<open>datetime\<close>: its fields, and \<open>tzinfo\<close> as the UTC offset in microseconds (\<open>None\<close> for
  a naive value).
\<close>

record datetime =
  year :: nat
  month :: nat
  day :: nat
  hour :: nat
  minute :: nat
  second :: nat
  microsecond :: nat
  tzinfo :: "int option"

text \<open>Days since 1970-01-01 in the proleptic Gregorian calendar.\<close>

definition days_from_civil :: "int \<Rightarrow> int \<Rightarrow> int \<Rightarrow> int" where
  "days_from_civil y m d =
     (let y' = (if m \<le> 2 then y - 1 else y);
          era = y' div 400;
          yoe = y' mod 400;
          doy = (153 * (if m > 2 then m - 3 else m + 9) + 2) div 5 + d - 1;
          doe = yoe * 365 + yoe div 4 - yoe div 100 + doy
      in era * 146097 + doe - 719468)"

text \<open>
  The instant a \<open>datetime\<close> denotes, in microseconds since the epoch; this is what a
  \<open>timestamp with time zone\<close> column stores and what comparisons of aware values compare.
  A naive value is read at offset zero.
\<close>

definition instant :: "datetime \<Rightarrow> int" where
  "instant dt =
     ((days_from_civil (int (year dt)) (int (month dt)) (int (day dt)) * 86400
        + int (hour dt) * 3600 + int (minute dt) * 60 + int (second dt)) * 1000000
      + int (microsecond dt)
      - (case tzinfo dt of None \<Rightarrow> 0 | Some off \<Rightarrow> off))"

section \<open>Schemas (app/schemas.py) and the table (app/models.py)\<close>

datatype TransactionType = CARD | P2P | CRYPTO | TOP_UP | WITHDRAWAL | BILL_PAYMENT | EARNINGS

fun TransactionType_value :: "TransactionType \<Rightarrow> string" where
  "TransactionType_value CARD = ''card''"
| "TransactionType_value P2P = ''p2p''"
| "TransactionType_value CRYPTO = ''crypto''"
| "TransactionType_value TOP_UP = ''top_up''"
| "TransactionType_value WITHDRAWAL = ''withdrawal''"
| "TransactionType_value BILL_PAYMENT = ''bill_payment''"
| "TransactionType_value EARNINGS = ''earnings''"

datatype Product = Product_CARD | Product_P2P | Product_CRYPTO | Product_EARNINGS

fun Product_value :: "Product \<Rightarrow> string" where
  "Product_value Product_CARD = ''Card''"
| "Product_value Product_P2P = ''P2P''"
| "Product_value Product_CRYPTO = ''Crypto''"
| "Product_value Product_EARNINGS = ''Earnings''"

datatype TransactionStatus = COMPLETED | PENDING | FAILED | CANCELLED

fun TransactionStatus_value :: "TransactionStatus \<Rightarrow> string" where
  "TransactionStatus_value COMPLETED = ''completed''"
| "TransactionStatus_value PENDING = ''pending''"
| "TransactionStatus_value FAILED = ''failed''"
| "TransactionStatus_value CANCELLED = ''cancelled''"

text \<open>
  A JSON value, as \<open>json.loads\<close> builds it and as the \<open>custom_metadata\<close> column holds it. A
  number is kept as its decimal text; binary floating point is not modelled. An object is
  the list of its items in insertion order, with distinct keys.
\<close>

datatype json =
    JNull
  | JBool bool
  | JNum string
  | JStr string
  | JArr "json list"
  | JObj "(string \<times> json) list"

text \<open>
  \<open>TransactionFilter\<close>. Amounts are in hundredths, the scale of the \<open>Numeric(18, 2)\<close>
  column. The fields that share a name with a column carry the prefix \<open>f_\<close>.
\<close>

record TransactionFilter =
  f_user_id :: "string option"
  f_transaction_type :: "TransactionType option"
  f_product :: "Product option"
  f_status :: "TransactionStatus option"
  f_currency :: "string option"
  start_date :: "datetime option"
  end_date :: "datetime option"
  min_amount :: "int option"
  max_amount :: "int option"
  search_query :: "string option"
  metadata_filters :: "(string \<times> string) list option"

record PaginationParams =
  page :: int
  page_size :: int

record CursorPaginationParams =
  cursor :: "string option"
  limit :: int

text \<open>A row of the \<open>transactions\<close> table; \<open>tx_id\<close> is the 128-bit value of the \<open>id\<close> column.\<close>

record Transaction =
  tx_id :: nat
  user_id :: string
  transaction_type :: string
  product :: string
  status :: string
  currency :: string
  amount :: int
  created_at :: datetime
  updated_at :: "datetime option"
  custom_metadata :: "json option"
  search_content :: "string option"

section \<open>Cache keys of the query service (app/services/transaction\_service.py)\<close>

definition build_cache_key ::
  "string \<Rightarrow> TransactionFilter option \<Rightarrow> PaginationParams option \<Rightarrow> string" where
  "build_cache_key uid filters pagination =
     join '':''
       ([''transactions:user:'' @ uid]
        @ (case filters of
             None \<Rightarrow> []
           | Some f \<Rightarrow>
               (case f_transaction_type f of
                  Some t \<Rightarrow> [''type:'' @ TransactionType_value t] | None \<Rightarrow> [])
               @ (case f_product f of
                    Some p \<Rightarrow> [''product:'' @ Product_value p] | None \<Rightarrow> [])
               @ (case f_status f of
                    Some s \<Rightarrow> [''status:'' @ TransactionStatus_value s] | None \<Rightarrow> [])
               @ (if truthy (f_currency f) then [''currency:'' @ the (f_currency f)] else [])
               @ (if truthy (search_query f) then [''search:'' @ the (search_query f)] else []))
        @ (case pagination of
             None \<Rightarrow> []
           | Some p \<Rightarrow>
               [''page:'' @ str_of_int (page p) @ '':size:'' @ str_of_int (page_size p)]))"

definition build_cache_key_cursor ::
  "string \<Rightarrow> TransactionFilter option \<Rightarrow> CursorPaginationParams option \<Rightarrow> string" where
  "build_cache_key_cursor uid filters cursor_pagination =
     join '':''
       ([''transactions:user:'' @ uid @ '':cursor'']
        @ (case filters of
             None \<Rightarrow> []
           | Some f \<Rightarrow>
               (case f_transaction_type f of
                  Some t \<Rightarrow> [''type:'' @ TransactionType_value t] | None \<Rightarrow> [])
               @ (case f_product f of
                    Some p \<Rightarrow> [''product:'' @ Product_value p] | None \<Rightarrow> [])
               @ (case f_status f of
                    Some s \<Rightarrow> [''status:'' @ TransactionStatus_value s] | None \<Rightarrow> [])
               @ (if truthy (f_currency f) then [''currency:'' @ the (f_currency f)] else [])
               @ (if truthy (search_query f) then [''search:'' @ the (search_query f)] else []))
        @ (case cursor_pagination of
             None \<Rightarrow> []
           | Some cp \<Rightarrow>
               [''limit:'' @ str_of_int (limit cp)]
               @ (if truthy (cursor cp)
                  then [''cursor:'' @ str_prefix 20 (the (cursor cp))] else [])))"

section \<open>Python exceptions\<close>

text \<open>
  The exception classes that the modelled code raises or catches, and the subclass test
  behind an \<open>except\<close> clause: \<open>binascii.Error\<close>, \<open>UnicodeDecodeError\<close> and
  \<open>json.JSONDecodeError\<close> are subclasses of \<open>ValueError\<close>. \<open>DBAPIError\<close> is the error
  that SQLAlchemy raises when the database refuses a statement.
\<close>

datatype py_exception =
    ValueError
  | KeyError
  | TypeError
  | AttributeError
  | JSONDecodeError
  | binascii_Error
  | UnicodeDecodeError
  | ZeroDivisionError
  | DBAPIError

fun issubclass :: "py_exception \<Rightarrow> py_exception \<Rightarrow> bool" where
  "issubclass JSONDecodeError ValueError = True"
| "issubclass binascii_Error ValueError = True"
| "issubclass UnicodeDecodeError ValueError = True"
| "issubclass e c = (e = c)"

text \<open>\<open>except (c1, c2, ...)\<close>: does the clause catch an exception of class \<open>e\<close>?\<close>

definition caught_by :: "py_exception list \<Rightarrow> py_exception \<Rightarrow> bool" where
  "caught_by classes e = (\<exists>c \<in> set classes. issubclass e c)"

section \<open>Base64 (the standard library's \<open>base64\<close> and \<open>binascii\<close>)\<close>

text \<open>\<open>bytes\<close> are lists of 8-bit characters.\<close>

definition b64_alphabet :: string where
  "b64_alphabet = ''ABCDEFGHIJKLMNOPQRSTUVWXYZabcdefghijklmnopqrstuvwxyz0123456789+/''"

definition b64_char :: "nat \<Rightarrow> char" where
  "b64_char i = b64_alphabet ! i"

fun b64encode :: "string \<Rightarrow> string" where
  "b64encode [] = []"
| "b64encode [a] =
     (let x = (of_char a :: nat)
      in [b64_char (x div 4), b64_char ((x mod 4) * 16), CHR ''='', CHR ''=''])"
| "b64encode [a, b] =
     (let x = (of_char a :: nat); y = (of_char b :: nat)
      in [b64_char (x div 4), b64_char ((x mod 4) * 16 + y div 16),
          b64_char ((y mod 16) * 4), CHR ''=''])"
| "b64encode (a # b # c # rest) =
     (let x = (of_char a :: nat); y = (of_char b :: nat); z = (of_char c :: nat)
      in [b64_char (x div 4), b64_char ((x mod 4) * 16 + y div 16),
          b64_char ((y mod 16) * 4 + z div 64), b64_char (z mod 64)]
         @ b64encode rest)"

text \<open>\<open>urlsafe_b64encode\<close>: the standard encoding with \<open>+\<close> and \<open>/\<close> replaced by \<open>-\<close> and \<open>_\<close>.\<close>

definition urlsafe_encode_char :: "char \<Rightarrow> char" where
  "urlsafe_encode_char c =
     (if c = CHR ''+'' then CHR ''-'' else if c = CHR ''/'' then CHR ''_'' else c)"

definition urlsafe_b64encode :: "string \<Rightarrow> string" where
  "urlsafe_b64encode s = map urlsafe_encode_char (b64encode s)"

text \<open>The value of a character of the standard alphabet; \<open>None\<close> for any other byte.\<close>

definition b64_value :: "char \<Rightarrow> nat option" where
  "b64_value c =
     (let n = (of_char c :: nat)
      in if 65 \<le> n \<and> n \<le> 90 then Some (n - 65)
         else if 97 \<le> n \<and> n \<le> 122 then Some (n - 71)
         else if 48 \<le> n \<and> n \<le> 57 then Some (n + 4)
         else if c = CHR ''+'' then Some 62
         else if c = CHR ''/'' then Some 63
         else None)"

text \<open>
  \<open>binascii.a2b_base64\<close> as \<open>base64.b64decode\<close> calls it (not strict): bytes outside the
  alphabet are skipped; a pad character ends the input once it completes a quad and is
  skipped otherwise; the input must not stop in the middle of a quad. The arguments after
  the input are the position in the quad, the bits left over from the previous character,
  the pad characters seen since the last data character, and the output so far.
\<close>

fun a2b_base64 :: "string \<Rightarrow> nat \<Rightarrow> nat \<Rightarrow> nat \<Rightarrow> string \<Rightarrow> py_exception + string" where
  "a2b_base64 [] quad_pos leftchar pads out =
     (if quad_pos \<noteq> 0 then Inl binascii_Error else Inr out)"
| "a2b_base64 (c # cs) quad_pos leftchar pads out =
     (if c = CHR ''='' then
        (if quad_pos \<ge> 2 then
           (if quad_pos + (pads + 1) \<ge> 4 then Inr out
            else a2b_base64 cs quad_pos leftchar (pads + 1) out)
         else a2b_base64 cs quad_pos leftchar pads out)
      else
        (case b64_value c of
           None \<Rightarrow> a2b_base64 cs quad_pos leftchar pads out
         | Some v \<Rightarrow>
             if quad_pos = 0 then a2b_base64 cs 1 v 0 out
             else if quad_pos = 1 then
               a2b_base64 cs 2 (v mod 16) 0 (out @ [char_of (leftchar * 4 + v div 16)])
             else if quad_pos = 2 then
               a2b_base64 cs 3 (v mod 4) 0 (out @ [char_of (leftchar * 16 + v div 4)])
             else a2b_base64 cs 0 0 0 (out @ [char_of (leftchar * 64 + v)])))"

definition urlsafe_decode_char :: "char \<Rightarrow> char" where
  "urlsafe_decode_char c =
     (if c = CHR ''-'' then CHR ''+'' else if c = CHR ''_'' then CHR ''/'' else c)"

definition urlsafe_b64decode :: "string \<Rightarrow> py_exception + string" where
  "urlsafe_b64decode s = a2b_base64 (map urlsafe_decode_char s) 0 0 0 []"

section \<open>UTF-8 (\<open>bytes.decode()\<close>)\<close>

definition byte :: "char \<Rightarrow> nat" where
  "byte c = of_char c"

definition in_range :: "nat \<Rightarrow> nat \<Rightarrow> char \<Rightarrow> bool" where
  "in_range lo hi c = (lo \<le> byte c \<and> byte c \<le> hi)"

text \<open>
  Well-formed UTF-8: no overlong forms, no surrogates, nothing above U+10FFFF. This is what
  the strict decoder accepts.
\<close>

fun utf8_valid :: "string \<Rightarrow> bool" where
  "utf8_valid [] = True"
| "utf8_valid (c # cs) =
     (if byte c < 128 then utf8_valid cs
      else if in_range 194 223 c then
        (case cs of
           c1 # r \<Rightarrow> in_range 128 191 c1 \<and> utf8_valid r
         | _ \<Rightarrow> False)
      else if in_range 224 239 c then
        (case cs of
           c1 # c2 # r \<Rightarrow>
             (if byte c = 224 then in_range 160 191 c1
              else if byte c = 237 then in_range 128 159 c1
              else in_range 128 191 c1)
             \<and> in_range 128 191 c2 \<and> utf8_valid r
         | _ \<Rightarrow> False)
      else if in_range 240 244 c then
        (case cs of
           c1 # c2 # c3 # r \<Rightarrow>
             (if byte c = 240 then in_range 144 191 c1
              else if byte c = 244 then in_range 128 143 c1
              else in_range 128 191 c1)
             \<and> in_range 128 191 c2 \<and> in_range 128 191 c3 \<and> utf8_valid r
         | _ \<Rightarrow> False)
      else False)"

definition bytes_decode :: "string \<Rightarrow> py_exception + string" where
  "bytes_decode b = (if utf8_valid b then Inr b else Inl UnicodeDecodeError)"

text \<open>
  The UTF-8 form of one code point. A lone surrogate, which a Python \<open>str\<close> can hold, gets
  the three-byte form as well.
\<close>

definition utf8_encode :: "nat \<Rightarrow> string" where
  "utf8_encode cp =
     (if cp < 128 then [char_of cp]
      else if cp < 2048 then [char_of (192 + cp div 64), char_of (128 + cp mod 64)]
      else if cp < 65536 then
        [char_of (224 + cp div 4096), char_of (128 + (cp div 64) mod 64),
         char_of (128 + cp mod 64)]
      else
        [char_of (240 + cp div 262144), char_of (128 + (cp div 4096) mod 64),
         char_of (128 + (cp div 64) mod 64), char_of (128 + cp mod 64)])"

text \<open>The code points of a string.\<close>

fun code_points :: "string \<Rightarrow> nat list" where
  "code_points [] = []"
| "code_points (c # cs) =
     (if byte c < 192 then byte c # code_points cs
      else if byte c < 224 then
        (case cs of
           c1 # r \<Rightarrow> ((byte c mod 32) * 64 + byte c1 mod 64) # code_points r
         | _ \<Rightarrow> [byte c])
      else if byte c < 240 then
        (case cs of
           c1 # c2 # r \<Rightarrow>
             ((byte c mod 16) * 4096 + (byte c1 mod 64) * 64 + byte c2 mod 64) # code_points r
         | _ \<Rightarrow> byte c # code_points cs)
      else
        (case cs of
           c1 # c2 # c3 # r \<Rightarrow>
             ((byte c mod 8) * 262144 + (byte c1 mod 64) * 4096 + (byte c2 mod 64) * 64
               + byte c3 mod 64) # code_points r
         | _ \<Rightarrow> byte c # code_points cs))"

section \<open>JSON (the standard library's \<open>json\<close>)\<close>

subsection \<open>\<open>json.dumps\<close>\<close>

definition hex_digit :: "nat \<Rightarrow> char" where
  "hex_digit d = (if d < 10 then char_of (48 + d) else char_of (87 + d))"

definition hex4 :: "nat \<Rightarrow> string" where
  "hex4 n = [hex_digit ((n div 4096) mod 16), hex_digit ((n div 256) mod 16),
             hex_digit ((n div 16) mod 16), hex_digit (n mod 16)]"

text \<open>
  The escape of one code point under \<open>ensure_ascii\<close>: the printable ASCII characters other
  than the quote and the backslash stand for themselves.
\<close>

definition escape_code_point :: "nat \<Rightarrow> string" where
  "escape_code_point n =
     (if n = 34 then [CHR 0x5C, CHR 0x22]
      else if n = 92 then [CHR 0x5C, CHR 0x5C]
      else if n = 8 then [CHR 0x5C, CHR ''b'']
      else if n = 12 then [CHR 0x5C, CHR ''f'']
      else if n = 10 then [CHR 0x5C, CHR ''n'']
      else if n = 13 then [CHR 0x5C, CHR ''r'']
      else if n = 9 then [CHR 0x5C, CHR ''t'']
      else if 32 \<le> n \<and> n \<le> 126 then [char_of n]
      else if n < 65536 then [CHR 0x5C, CHR ''u''] @ hex4 n
      else [CHR 0x5C, CHR ''u''] @ hex4 (55296 + ((n - 65536) div 1024) mod 1024)
           @ [CHR 0x5C, CHR ''u''] @ hex4 (56320 + (n - 65536) mod 1024))"

definition encode_basestring_ascii :: "string \<Rightarrow> string" where
  "encode_basestring_ascii s =
     [CHR 0x22] @ concat (map escape_code_point (code_points s)) @ [CHR 0x22]"

text \<open>
  \<open>json.dumps(v, sort_keys=b)\<close> with the default separators. With \<open>sort_keys\<close> the items of
  an object are written in the order of their keys.
\<close>

fun json_dumps :: "bool \<Rightarrow> json \<Rightarrow> string" where
  "json_dumps sk JNull = ''null''"
| "json_dumps sk (JBool b) = (if b then ''true'' else ''false'')"
| "json_dumps sk (JNum n) = n"
| "json_dumps sk (JStr s) = encode_basestring_ascii s"
| "json_dumps sk (JArr xs) = ''['' @ join '', '' (map (json_dumps sk) xs) @ '']''"
| "json_dumps sk (JObj kvs) =
     (let rendered = map (\<lambda>kv. (fst kv, json_dumps sk (snd kv))) kvs;
          ordered = (if sk then sort_key fst rendered else rendered)
      in ''{''
         @ join '', '' (map (\<lambda>kr. encode_basestring_ascii (fst kr) @ '': '' @ snd kr) ordered)
         @ ''}'')"

subsection \<open>\<open>json.loads\<close>\<close>

definition hex_value :: "char \<Rightarrow> nat option" where
  "hex_value c =
     (if in_range 48 57 c then Some (byte c - 48)
      else if in_range 97 102 c then Some (byte c - 87)
      else if in_range 65 70 c then Some (byte c - 55)
      else None)"

definition hex4_value :: "char \<Rightarrow> char \<Rightarrow> char \<Rightarrow> char \<Rightarrow> nat option" where
  "hex4_value a b c d =
     (case hex_value a of None \<Rightarrow> None | Some w \<Rightarrow>
      case hex_value b of None \<Rightarrow> None | Some x \<Rightarrow>
      case hex_value c of None \<Rightarrow> None | Some y \<Rightarrow>
      case hex_value d of None \<Rightarrow> None | Some z \<Rightarrow>
        Some (w * 4096 + x * 256 + y * 16 + z))"

definition prepend :: "string \<Rightarrow> (string \<times> string) option \<Rightarrow> (string \<times> string) option" where
  "prepend x r = (case r of None \<Rightarrow> None | Some (s, rest) \<Rightarrow> Some (x @ s, rest))"

definition simple_escape :: "char \<Rightarrow> char option" where
  "simple_escape e =
     (if e = CHR 0x22 then Some (CHR 0x22)
      else if e = CHR 0x5C then Some (CHR 0x5C)
      else if e = CHR ''/'' then Some (CHR ''/'')
      else if e = CHR ''b'' then Some (CHR 0x08)
      else if e = CHR ''f'' then Some (CHR 0x0C)
      else if e = CHR ''n'' then Some (CHR 0x0A)
      else if e = CHR ''r'' then Some (CHR 0x0D)
      else if e = CHR ''t'' then Some (CHR 0x09)
      else None)"

text \<open>
  A \<open>\u\<close> escape, read after the \<open>u\<close>: the bytes it stands for and the input after it. The
  escape of a high surrogate joins with a following escape of a low surrogate; a following
  \<open>\u\<close> that is not four hexadecimal digits is an error. \<open>None\<close> stands for
  \<open>JSONDecodeError\<close>.
\<close>

definition scan_unicode :: "string \<Rightarrow> (string \<times> string) option" where
  "scan_unicode r =
     (case r of
        h1 # h2 # h3 # h4 # r4 \<Rightarrow>
          (case hex4_value h1 h2 h3 h4 of
             None \<Rightarrow> None
           | Some u \<Rightarrow>
               if 55296 \<le> u \<and> u \<le> 56319 then
                 (case r4 of
                    b # v # g1 # g2 # g3 # g4 # r10 \<Rightarrow>
                      if b = CHR 0x5C \<and> v = CHR ''u'' then
                        (case hex4_value g1 g2 g3 g4 of
                           None \<Rightarrow> None
                         | Some u2 \<Rightarrow>
                             if 56320 \<le> u2 \<and> u2 \<le> 57343
                             then Some (utf8_encode
                                          (65536 + (u - 55296) * 1024 + (u2 - 56320)), r10)
                             else Some (utf8_encode u, r4))
                      else Some (utf8_encode u, r4)
                  | _ \<Rightarrow> Some (utf8_encode u, r4))
               else Some (utf8_encode u, r4))
      | _ \<Rightarrow> None)"

text \<open>An escape, read after the backslash.\<close>

definition scan_escape :: "string \<Rightarrow> (string \<times> string) option" where
  "scan_escape cs =
     (case cs of
        [] \<Rightarrow> None
      | e # r \<Rightarrow>
          if e = CHR ''u'' then scan_unicode r
          else (case simple_escape e of None \<Rightarrow> None | Some x \<Rightarrow> Some ([x], r)))"

lemma scan_unicode_shorter: "scan_unicode r = Some (x, r') \<Longrightarrow> length r' < length r"
  unfolding scan_unicode_def
  by (auto split: list.splits option.splits if_splits)

lemma scan_escape_shorter: "scan_escape cs = Some (x, r) \<Longrightarrow> length r < length cs"
  unfolding scan_escape_def
  by (auto split: list.splits option.splits if_splits dest: scan_unicode_shorter)

text \<open>
  The strict string scanner, started after the opening quote: the content of the string
  and the input after the closing quote. Control characters are refused.
\<close>

function scanstring :: "string \<Rightarrow> (string \<times> string) option" where
  "scanstring [] = None"
| "scanstring (c # cs) =
     (if c = CHR 0x22 then Some ([], cs)
      else if c = CHR 0x5C then
        (case scan_escape cs of
           None \<Rightarrow> None
         | Some (x, r) \<Rightarrow> prepend x (scanstring r))
      else if byte c < 32 then None
      else prepend [c] (scanstring cs))"
  by pat_completeness auto
termination
proof (relation "measure length")
  fix c cs x2 x y
  assume "scan_escape cs = Some x2" "(x, y) = x2"
  then show "(y, c # cs) \<in> measure length"
    using scan_escape_shorter[of cs x y] by simp
qed simp_all

lemma scanstring_shorter: "scanstring s = Some (x, r) \<Longrightarrow> length r < length s"
proof (induction s arbitrary: x r rule: scanstring.induct)
  case 1
  then show ?case by simp
next
  case (2 c cs)
  show ?case
  proof (cases "c = CHR 0x22")
    case True
    with "2.prems" show ?thesis by simp
  next
    case nq: False
    show ?thesis
    proof (cases "c = CHR 0x5C")
      case True
      with nq "2.prems" obtain y r1 s1 where
        e: "scan_escape cs = Some (y, r1)" and s: "scanstring r1 = Some (s1, r)"
        by (auto simp: prepend_def split: option.splits prod.splits)
      have "length r < length r1" using "2.IH"(1)[OF nq True e refl s] .
      moreover have "length r1 < length cs" using scan_escape_shorter[OF e] .
      ultimately show ?thesis by simp
    next
      case False
      with nq "2.prems" obtain s1 where
        b: "\<not> byte c < 32" and s: "scanstring cs = Some (s1, r)"
        by (auto simp: prepend_def split: option.splits prod.splits if_splits)
      have "length r < length cs" using "2.IH"(2)[OF nq False b s] .
      then show ?thesis by simp
    qed
  qed
qed

definition is_digit :: "char \<Rightarrow> bool" where
  "is_digit c = in_range 48 57 c"

text \<open>
  A JSON number: \<open>-?(0|[1-9][0-9]*)(\.[0-9]+)?([eE][-+]?[0-9]+)?\<close>. Each part returns what
  follows it.
\<close>

definition number_int_part :: "string \<Rightarrow> string option" where
  "number_int_part s =
     (case s of
        [] \<Rightarrow> None
      | c # cs \<Rightarrow>
          if c = CHR ''0'' then Some cs
          else if in_range 49 57 c then Some (dropWhile is_digit cs)
          else None)"

definition number_frac_part :: "string \<Rightarrow> string option" where
  "number_frac_part s =
     (case s of
        [] \<Rightarrow> Some []
      | c # cs \<Rightarrow>
          if c = CHR ''.'' then
            (case cs of
               [] \<Rightarrow> None
             | d # r \<Rightarrow> if is_digit d then Some (dropWhile is_digit r) else None)
          else Some s)"

definition number_exp_part :: "string \<Rightarrow> string option" where
  "number_exp_part s =
     (case s of
        [] \<Rightarrow> Some []
      | c # cs \<Rightarrow>
          if c = CHR ''e'' \<or> c = CHR ''E'' then
            (case (case cs of
                     [] \<Rightarrow> []
                   | g # r \<Rightarrow> if g = CHR ''+'' \<or> g = CHR ''-'' then r else cs) of
               [] \<Rightarrow> None
             | d # r \<Rightarrow> if is_digit d then Some (dropWhile is_digit r) else None)
          else Some s)"

definition is_json_number :: "string \<Rightarrow> bool" where
  "is_json_number w =
     (case number_int_part (case w of [] \<Rightarrow> [] | c # cs \<Rightarrow> if c = CHR ''-'' then cs else w) of
        None \<Rightarrow> False
      | Some r1 \<Rightarrow>
          (case number_frac_part r1 of
             None \<Rightarrow> False
           | Some r2 \<Rightarrow>
               (case number_exp_part r2 of
                  None \<Rightarrow> False
                | Some r3 \<Rightarrow> r3 = [])))"

text \<open>
  Outside strings a value that is not a container is a maximal run of letters, digits,
  signs and dots: a literal or a number. Two such values are never adjacent in a JSON
  text, so reading the run at once accepts the same texts as reading its longest legal
  prefix.
\<close>

definition is_word_char :: "char \<Rightarrow> bool" where
  "is_word_char c =
     (in_range 48 57 c \<or> in_range 65 90 c \<or> in_range 97 122 c
      \<or> c = CHR ''+'' \<or> c = CHR ''-'' \<or> c = CHR ''.'')"

definition scalar_of_word :: "string \<Rightarrow> json option" where
  "scalar_of_word w =
     (if w = ''null'' then Some JNull
      else if w = ''true'' then Some (JBool True)
      else if w = ''false'' then Some (JBool False)
      else if w = ''NaN'' \<or> w = ''Infinity'' \<or> w = ''-Infinity'' then Some (JNum w)
      else if is_json_number w then Some (JNum w)
      else None)"

datatype token =
    TLBrace | TRBrace | TLBracket | TRBracket | TColon | TComma
  | TString string
  | TScalar json

definition is_whitespace :: "char \<Rightarrow> bool" where
  "is_whitespace c = (c = CHR '' '' \<or> c = CHR 0x09 \<or> c = CHR 0x0A \<or> c = CHR 0x0D)"

definition cons_token :: "token \<Rightarrow> token list option \<Rightarrow> token list option" where
  "cons_token t r = (case r of None \<Rightarrow> None | Some ts \<Rightarrow> Some (t # ts))"

function tokenize :: "string \<Rightarrow> token list option" where
  "tokenize [] = Some []"
| "tokenize (c # cs) =
     (if is_whitespace c then tokenize cs
      else if c = CHR ''{'' then cons_token TLBrace (tokenize cs)
      else if c = CHR ''}'' then cons_token TRBrace (tokenize cs)
      else if c = CHR ''['' then cons_token TLBracket (tokenize cs)
      else if c = CHR '']'' then cons_token TRBracket (tokenize cs)
      else if c = CHR '':'' then cons_token TColon (tokenize cs)
      else if c = CHR '','' then cons_token TComma (tokenize cs)
      else if c = CHR 0x22 then
        (case scanstring cs of
           None \<Rightarrow> None
         | Some (x, r) \<Rightarrow> cons_token (TString x) (tokenize r))
      else if is_word_char c then
        (case scalar_of_word (c # takeWhile is_word_char cs) of
           None \<Rightarrow> None
         | Some v \<Rightarrow> cons_token (TScalar v) (tokenize (dropWhile is_word_char cs)))
      else None)"
  by pat_completeness auto
termination
proof (relation "measure length")
  fix c cs x2 x y
  assume "scanstring cs = Some x2" "(x, y) = x2"
  then show "(y, c # cs) \<in> measure length"
    using scanstring_shorter[of cs x y] by simp
qed (simp_all add: length_dropWhile_le less_Suc_eq_le)

text \<open>\<open>d[k] = v\<close> on the items of a \<open>dict\<close>: a key that is present keeps its place.\<close>

fun dict_set :: "(string \<times> json) list \<Rightarrow> string \<Rightarrow> json \<Rightarrow> (string \<times> json) list" where
  "dict_set [] k v = [(k, v)]"
| "dict_set (p # ps) k v = (if fst p = k then (k, v) # ps else p # dict_set ps k v)"

text \<open>
  The parser reads the tokens with a stack of the containers that are still open: an
  array with its elements so far, an object with its items so far and the key whose value
  is being read.
\<close>

datatype frame = FArr "json list" | FObj "(string \<times> json) list" string

datatype pmode =
    PValue
  | PValueOrClose
  | PKey
  | PKeyOrClose
  | PColon
  | PAfter
  | PDone json

text \<open>
  The modes: a value must follow (\<open>PValue\<close>); just after an opening bracket, where the
  array may also close (\<open>PValueOrClose\<close>); a key must follow (\<open>PKey\<close>); just after an opening
  brace (\<open>PKeyOrClose\<close>); after a key (\<open>PColon\<close>); after a value inside a container
  (\<open>PAfter\<close>); the top-level value is complete (\<open>PDone\<close>).

  A complete value goes to the innermost open container, or is the result.
\<close>

fun deliver :: "json \<Rightarrow> frame list \<Rightarrow> pmode \<times> frame list" where
  "deliver v [] = (PDone v, [])"
| "deliver v (FArr xs # st) = (PAfter, FArr (xs @ [v]) # st)"
| "deliver v (FObj kvs k # st) = (PAfter, FObj (dict_set kvs k v) k # st)"

definition start_value :: "token \<Rightarrow> frame list \<Rightarrow> (pmode \<times> frame list) option" where
  "start_value t st =
     (case t of
        TString s \<Rightarrow> Some (deliver (JStr s) st)
      | TScalar v \<Rightarrow> Some (deliver v st)
      | TLBracket \<Rightarrow> Some (PValueOrClose, FArr [] # st)
      | TLBrace \<Rightarrow> Some (PKeyOrClose, FObj [] [] # st)
      | _ \<Rightarrow> None)"

definition close_array :: "frame list \<Rightarrow> (pmode \<times> frame list) option" where
  "close_array st = (case st of FArr xs # st' \<Rightarrow> Some (deliver (JArr xs) st') | _ \<Rightarrow> None)"

definition close_object :: "frame list \<Rightarrow> (pmode \<times> frame list) option" where
  "close_object st =
     (case st of FObj kvs k # st' \<Rightarrow> Some (deliver (JObj kvs) st') | _ \<Rightarrow> None)"

definition read_key :: "token \<Rightarrow> frame list \<Rightarrow> (pmode \<times> frame list) option" where
  "read_key t st =
     (case t of
        TString k \<Rightarrow>
          (case st of FObj kvs k0 # st' \<Rightarrow> Some (PColon, FObj kvs k # st') | _ \<Rightarrow> None)
      | _ \<Rightarrow> None)"

definition parse_step :: "pmode \<Rightarrow> frame list \<Rightarrow> token \<Rightarrow> (pmode \<times> frame list) option" where
  "parse_step m st t =
     (case m of
        PValue \<Rightarrow> start_value t st
      | PValueOrClose \<Rightarrow> (if t = TRBracket then close_array st else start_value t st)
      | PKey \<Rightarrow> read_key t st
      | PKeyOrClose \<Rightarrow> (if t = TRBrace then close_object st else read_key t st)
      | PColon \<Rightarrow> (if t = TColon then Some (PValue, st) else None)
      | PAfter \<Rightarrow>
          (case st of
             FArr xs # st' \<Rightarrow>
               if t = TComma then Some (PValue, st)
               else if t = TRBracket then close_array st
               else None
           | FObj kvs k # st' \<Rightarrow>
               if t = TComma then Some (PKey, st)
               else if t = TRBrace then close_object st
               else None
           | [] \<Rightarrow> None)
      | PDone v \<Rightarrow> None)"

fun parse_tokens :: "pmode \<Rightarrow> frame list \<Rightarrow> token list \<Rightarrow> json option" where
  "parse_tokens m st [] = (case m of PDone v \<Rightarrow> Some v | _ \<Rightarrow> None)"
| "parse_tokens m st (t # ts) =
     (case parse_step m st t of
        None \<Rightarrow> None
      | Some (m', st') \<Rightarrow> parse_tokens m' st' ts)"

text \<open>
  \<open>json.loads\<close>. The interpreter's own limits (the recursion limit on nesting, the limit
  on the digits of an integer) are not part of this model.
\<close>

definition json_loads :: "string \<Rightarrow> py_exception + json" where
  "json_loads s =
     (case tokenize s of
        None \<Rightarrow> Inl JSONDecodeError
      | Some ts \<Rightarrow>
          (case parse_tokens PValue [] ts of
             None \<Rightarrow> Inl JSONDecodeError
           | Some v \<Rightarrow> Inr v))"

text \<open>\<open>v[k]\<close> for a string \<open>k\<close>.\<close>

definition getitem :: "json \<Rightarrow> string \<Rightarrow> py_exception + json" where
  "getitem v k =
     (case v of
        JObj kvs \<Rightarrow> (case map_of kvs k of None \<Rightarrow> Inl KeyError | Some x \<Rightarrow> Inr x)
      | _ \<Rightarrow> Inl TypeError)"

section \<open>\<open>datetime.isoformat\<close> and \<open>datetime.fromisoformat\<close>\<close>

text \<open>\<open>'%0wd' % n\<close>: at least \<open>w\<close> digits, padded with zeros on the left.\<close>

definition zero_pad :: "nat \<Rightarrow> nat \<Rightarrow> string" where
  "zero_pad w n = replicate (w - length (str_of_nat n)) (CHR ''0'') @ str_of_nat n"

text \<open>
  The UTC offset is written as \<open>+HH:MM\<close>, with \<open>:SS\<close> when the seconds or the microseconds
  are not zero and \<open>.ffffff\<close> when the microseconds are not zero.
\<close>

definition format_offset :: "int option \<Rightarrow> string" where
  "format_offset off =
     (case off of
        None \<Rightarrow> []
      | Some o1 \<Rightarrow>
          (let a = nat (abs o1);
               hh = a div 3600000000;
               mm = (a div 60000000) mod 60;
               ss = (a div 1000000) mod 60;
               us = a mod 1000000
           in (if o1 < 0 then ''-'' else ''+'') @ zero_pad 2 hh @ '':'' @ zero_pad 2 mm
              @ (if ss \<noteq> 0 \<or> us \<noteq> 0
                 then '':'' @ zero_pad 2 ss @ (if us \<noteq> 0 then ''.'' @ zero_pad 6 us else [])
                 else [])))"

definition isoformat :: "datetime \<Rightarrow> string" where
  "isoformat dt =
     zero_pad 4 (year dt) @ ''-'' @ zero_pad 2 (month dt) @ ''-'' @ zero_pad 2 (day dt)
     @ ''T'' @ zero_pad 2 (hour dt) @ '':'' @ zero_pad 2 (minute dt) @ '':''
     @ zero_pad 2 (second dt)
     @ (if microsecond dt \<noteq> 0 then ''.'' @ zero_pad 6 (microsecond dt) else [])
     @ format_offset (tzinfo dt)"

text \<open>What the constructor of \<open>datetime\<close> and of \<open>timezone\<close> accept.\<close>

definition is_leap :: "nat \<Rightarrow> bool" where
  "is_leap y = (y mod 4 = 0 \<and> (y mod 100 \<noteq> 0 \<or> y mod 400 = 0))"

definition days_in_month :: "nat \<Rightarrow> nat \<Rightarrow> nat" where
  "days_in_month y m =
     (if m = 2 then (if is_leap y then 29 else 28)
      else if m = 4 \<or> m = 6 \<or> m = 9 \<or> m = 11 then 30
      else 31)"

definition valid_datetime :: "datetime \<Rightarrow> bool" where
  "valid_datetime dt =
     (1 \<le> year dt \<and> year dt \<le> 9999 \<and> 1 \<le> month dt \<and> month dt \<le> 12
      \<and> 1 \<le> day dt \<and> day dt \<le> days_in_month (year dt) (month dt)
      \<and> hour dt < 24 \<and> minute dt < 60 \<and> second dt < 60 \<and> microsecond dt < 1000000
      \<and> (case tzinfo dt of None \<Rightarrow> True | Some off \<Rightarrow> abs off < 86400000000))"

text \<open>Decimal digits.\<close>

definition digit_value :: "char \<Rightarrow> nat option" where
  "digit_value c = (if is_digit c then Some (byte c - 48) else None)"

fun digits_acc :: "nat \<Rightarrow> string \<Rightarrow> nat option" where
  "digits_acc a [] = Some a"
| "digits_acc a (c # cs) =
     (case digit_value c of None \<Rightarrow> None | Some d \<Rightarrow> digits_acc (a * 10 + d) cs)"

definition fixed_digits :: "nat \<Rightarrow> string \<Rightarrow> nat option" where
  "fixed_digits n s = (if length s = n then digits_acc 0 s else None)"

text \<open>\<open>YYYY-MM-DD\<close>.\<close>

definition parse_isoformat_date :: "string \<Rightarrow> (nat \<times> nat \<times> nat) option" where
  "parse_isoformat_date s =
     (if length s \<noteq> 10 \<or> take 1 (drop 4 s) \<noteq> ''-'' \<or> take 1 (drop 7 s) \<noteq> ''-'' then None
      else
        (case fixed_digits 4 (take 4 s) of None \<Rightarrow> None | Some y \<Rightarrow>
         case fixed_digits 2 (take 2 (drop 5 s)) of None \<Rightarrow> None | Some m \<Rightarrow>
         case fixed_digits 2 (drop 8 s) of None \<Rightarrow> None | Some d \<Rightarrow>
           Some (y, m, d)))"

text \<open>\<open>HH[:MM[:SS[.fff[fff]]]]\<close>: hour, minute, second and microsecond.\<close>

definition parse_fraction :: "string \<Rightarrow> nat option" where
  "parse_fraction f =
     (if f = [] then Some 0
      else if take 1 f \<noteq> ''.'' then None
      else if length f = 4 then
        (case fixed_digits 3 (drop 1 f) of None \<Rightarrow> None | Some u \<Rightarrow> Some (u * 1000))
      else if length f = 7 then fixed_digits 6 (drop 1 f)
      else None)"

definition parse_hh_mm_ss_ff :: "string \<Rightarrow> (nat \<times> nat \<times> nat \<times> nat) option" where
  "parse_hh_mm_ss_ff t =
     (case fixed_digits 2 (take 2 t) of None \<Rightarrow> None | Some h \<Rightarrow>
      if length t = 2 then Some (h, 0, 0, 0)
      else if take 1 (drop 2 t) \<noteq> '':'' then None
      else
        (case fixed_digits 2 (take 2 (drop 3 t)) of None \<Rightarrow> None | Some m \<Rightarrow>
         if length t = 5 then Some (h, m, 0, 0)
         else if take 1 (drop 5 t) \<noteq> '':'' then None
         else
           (case fixed_digits 2 (take 2 (drop 6 t)) of None \<Rightarrow> None | Some s \<Rightarrow>
            case parse_fraction (drop 8 t) of None \<Rightarrow> None | Some u \<Rightarrow>
              Some (h, m, s, u))))"

definition is_sign :: "char \<Rightarrow> bool" where
  "is_sign c = (c = CHR ''+'' \<or> c = CHR ''-'')"

text \<open>The offset after the sign: \<open>HH:MM\<close>, \<open>HH:MM:SS\<close> or \<open>HH:MM:SS.ffffff\<close>, in microseconds.\<close>

definition parse_offset :: "string \<Rightarrow> nat option" where
  "parse_offset tz =
     (if length tz \<noteq> 5 \<and> length tz \<noteq> 8 \<and> length tz \<noteq> 15 then None
      else
        (case parse_hh_mm_ss_ff tz of
           None \<Rightarrow> None
         | Some (h, m, s, u) \<Rightarrow> Some ((h * 3600 + m * 60 + s) * 1000000 + u)))"

definition make_datetime ::
  "nat \<times> nat \<times> nat \<Rightarrow> nat \<times> nat \<times> nat \<times> nat \<Rightarrow> int option \<Rightarrow> py_exception + datetime" where
  "make_datetime date time tz =
     (case date of (y, mo, d) \<Rightarrow>
      case time of (h, mi, s, u) \<Rightarrow>
        (let dt = \<lparr> year = y, month = mo, day = d, hour = h, minute = mi, second = s,
                     microsecond = u, tzinfo = tz \<rparr>
         in if valid_datetime dt then Inr dt else Inl ValueError))"

text \<open>
  \<open>datetime.fromisoformat\<close> on a string, for the format that the library documents as the
  inverse of \<open>isoformat\<close>: \<open>YYYY-MM-DD[*HH[:MM[:SS[.fff[fff]]]][+HH:MM[:SS[.ffffff]]]]\<close>, where
  \<open>*\<close> is any one character. Everything else is a \<open>ValueError\<close>. Interpreters differ on the
  further spellings they accept; the properties below use this function only on the output
  of \<open>isoformat\<close> and through the classes of the exceptions it raises.
\<close>

definition fromisoformat_str :: "string \<Rightarrow> py_exception + datetime" where
  "fromisoformat_str s =
     (case parse_isoformat_date (take 10 s) of
        None \<Rightarrow> Inl ValueError
      | Some date \<Rightarrow>
          (case drop 10 s of
             [] \<Rightarrow> make_datetime date (0, 0, 0, 0) None
           | sep # rest \<Rightarrow>
               (let t = dropWhile is_continuation rest;
                    timestr = takeWhile (\<lambda>c. \<not> is_sign c) t;
                    tzpart = dropWhile (\<lambda>c. \<not> is_sign c) t
                in case parse_hh_mm_ss_ff timestr of
                     None \<Rightarrow> Inl ValueError
                   | Some time \<Rightarrow>
                       (case tzpart of
                          [] \<Rightarrow> make_datetime date time None
                        | sg # tz \<Rightarrow>
                            (case parse_offset tz of
                               None \<Rightarrow> Inl ValueError
                             | Some mag \<Rightarrow>
                                 make_datetime date time
                                   (Some (if sg = CHR ''-'' then - int mag else int mag)))))))"

text \<open>On a value that is not a string the function raises \<open>TypeError\<close>.\<close>

definition fromisoformat :: "json \<Rightarrow> py_exception + datetime" where
  "fromisoformat v = (case v of JStr s \<Rightarrow> fromisoformat_str s | _ \<Rightarrow> Inl TypeError)"

section \<open>Cursor codec (app/utils/cursor.py)\<close>

definition encode_cursor :: "string \<Rightarrow> datetime \<Rightarrow> string" where
  "encode_cursor transaction_id created =
     (let cursor_data = JObj [(''id'', JStr transaction_id),
                              (''created_at'', JStr (isoformat created))];
          json_str = json_dumps True cursor_data
      in urlsafe_b64encode json_str)"

text \<open>
  The body of the \<open>try\<close> block of \<open>decode_cursor\<close>; \<open>Inl\<close> is the exception that leaves it.
\<close>

definition decode_cursor_try :: "string \<Rightarrow> py_exception + (json \<times> datetime)" where
  "decode_cursor_try cursor_str =
     (case urlsafe_b64decode cursor_str of Inl e \<Rightarrow> Inl e | Inr decoded_bytes \<Rightarrow>
      case bytes_decode decoded_bytes of Inl e \<Rightarrow> Inl e | Inr text \<Rightarrow>
      case json_loads text of Inl e \<Rightarrow> Inl e | Inr cursor_data \<Rightarrow>
      case getitem cursor_data ''id'' of Inl e \<Rightarrow> Inl e | Inr i \<Rightarrow>
      case getitem cursor_data ''created_at'' of Inl e \<Rightarrow> Inl e | Inr c \<Rightarrow>
      case fromisoformat c of Inl e \<Rightarrow> Inl e | Inr dt \<Rightarrow>
        Inr (i, dt))"

text \<open>
  \<open>decode_cursor\<close>: \<open>Inr (Some (id, created_at))\<close> is the dictionary it returns, \<open>Inr None\<close>
  is \<open>None\<close>, and \<open>Inl e\<close> is an exception that the \<open>except\<close> clause does not catch.
\<close>

definition decode_cursor :: "string \<Rightarrow> py_exception + (json \<times> datetime) option" where
  "decode_cursor cursor_str =
     (case decode_cursor_try cursor_str of
        Inr r \<Rightarrow> Inr (Some r)
      | Inl e \<Rightarrow>
          if caught_by [ValueError, KeyError, JSONDecodeError, TypeError] e
          then Inr None else Inl e)"

definition validate_cursor :: "string \<Rightarrow> py_exception + bool" where
  "validate_cursor cursor_str =
     (case decode_cursor cursor_str of Inl e \<Rightarrow> Inl e | Inr r \<Rightarrow> Inr (r \<noteq> None))"

section \<open>UUIDs (the standard library's \<open>uuid\<close>)\<close>

text \<open>
  A \<open>UUID\<close> is its 128-bit value. \<open>str(u)\<close> is the value in 32 lower-case hexadecimal
  digits, grouped 8-4-4-4-12.
\<close>

fun hex_fixed :: "nat \<Rightarrow> nat \<Rightarrow> string" where
  "hex_fixed 0 n = []"
| "hex_fixed (Suc w) n = hex_fixed w (n div 16) @ [hex_digit (n mod 16)]"

definition uuid_str :: "nat \<Rightarrow> string" where
  "uuid_str u =
     (let h = hex_fixed 32 u
      in take 8 h @ ''-'' @ take 4 (drop 8 h) @ ''-'' @ take 4 (drop 12 h) @ ''-''
         @ take 4 (drop 16 h) @ ''-'' @ drop 20 h)"

text \<open>\<open>s.replace(old, new)\<close> for a non-empty \<open>old\<close>, and \<open>s.strip(chars)\<close>.\<close>

fun str_replace :: "string \<Rightarrow> string \<Rightarrow> string \<Rightarrow> string" where
  "str_replace old new [] = []"
| "str_replace old new (c # cs) =
     (if old \<noteq> [] \<and> take (length old) (c # cs) = old
      then new @ str_replace old new (drop (length old - 1) cs)
      else c # str_replace old new cs)"

definition str_strip :: "string \<Rightarrow> string \<Rightarrow> string" where
  "str_strip chars s =
     rev (dropWhile (\<lambda>c. c \<in> set chars) (rev (dropWhile (\<lambda>c. c \<in> set chars) s)))"

text \<open>
  \<open>int(s, 16)\<close> for a string: white space at both ends, a sign, the prefix \<open>0x\<close> or \<open>0X\<close>,
  then hexadecimal digits, with single underscores allowed between two digits and after
  the prefix. Python also reads the decimal digits and the spaces of other scripts; here a
  string with a character outside ASCII is not a number.
\<close>

definition is_int_space :: "char \<Rightarrow> bool" where
  "is_int_space c = (in_range 9 13 c \<or> in_range 28 32 c)"

fun hex_digits :: "nat \<Rightarrow> string \<Rightarrow> nat option" where
  "hex_digits a [] = Some a"
| "hex_digits a [c] = (case hex_value c of None \<Rightarrow> None | Some d \<Rightarrow> Some (a * 16 + d))"
| "hex_digits a (c # d # cs) =
     (if c = CHR ''_''
      then (case hex_value d of None \<Rightarrow> None | Some v \<Rightarrow> hex_digits (a * 16 + v) cs)
      else (case hex_value c of None \<Rightarrow> None | Some v \<Rightarrow> hex_digits (a * 16 + v) (d # cs)))"

definition int_base16 :: "string \<Rightarrow> int option" where
  "int_base16 s =
     (let stripped = rev (dropWhile is_int_space (rev (dropWhile is_int_space s)));
          negative = (stripped \<noteq> [] \<and> hd stripped = CHR ''-'');
          unsigned = (if stripped \<noteq> [] \<and> (hd stripped = CHR ''+'' \<or> hd stripped = CHR ''-'')
                      then tl stripped else stripped);
          prefixed = (length unsigned \<ge> 2 \<and> hd unsigned = CHR ''0''
                      \<and> (unsigned ! 1 = CHR ''x'' \<or> unsigned ! 1 = CHR ''X''));
          after_prefix = (if prefixed then drop 2 unsigned else unsigned);
          digits = (if prefixed \<and> after_prefix \<noteq> [] \<and> hd after_prefix = CHR ''_''
                    then tl after_prefix else after_prefix)
      in case digits of
           [] \<Rightarrow> None
         | c # cs \<Rightarrow>
             (case hex_value c of
                None \<Rightarrow> None
              | Some d \<Rightarrow>
                  (case hex_digits d cs of
                     None \<Rightarrow> None
                   | Some n \<Rightarrow> Some (if negative then - int n else int n))))"

text \<open>
  \<open>UUID(s)\<close> for a string: the prefixes \<open>urn:\<close> and \<open>uuid:\<close>, surrounding braces and hyphens
  are removed, 32 characters must remain, and \<open>int(hex, 16)\<close> must read them as a number
  from 0 to \<open>2**128 - 1\<close>.
\<close>

definition UUID_of_str :: "string \<Rightarrow> py_exception + nat" where
  "UUID_of_str s =
     (let hex1 = str_replace ''uuid:'' [] (str_replace ''urn:'' [] s);
          hex2 = str_replace ''-'' [] (str_strip ''{}'' hex1)
      in if length hex2 \<noteq> 32 then Inl ValueError
         else (case int_base16 hex2 of
                 None \<Rightarrow> Inl ValueError
               | Some v \<Rightarrow>
                   if 0 \<le> v \<and> v < 2 ^ 128 then Inr (nat v) else Inl ValueError))"

text \<open>
  \<open>UUID(v)\<close> for a value that came out of \<open>json.loads\<close>: \<open>None\<close> is a \<open>TypeError\<close>, any other
  value that is not a string has no method \<open>replace\<close>.
\<close>

definition UUID :: "json \<Rightarrow> py_exception + nat" where
  "UUID v =
     (case v of
        JStr s \<Rightarrow> UUID_of_str s
      | JNull \<Rightarrow> Inl TypeError
      | _ \<Rightarrow> Inl AttributeError)"

text \<open>
  The printable ASCII characters other than the quote and the backslash: the characters
  that a JSON string holds as they are.
\<close>

definition plain_char :: "char \<Rightarrow> bool" where
  "plain_char c = (32 \<le> byte c \<and> byte c \<le> 126 \<and> c \<noteq> CHR 0x22 \<and> c \<noteq> CHR 0x5C)"

section \<open>Decimal digits\<close>

text \<open>The \<open>w\<close> low decimal digits of \<open>n\<close>, most significant first.\<close>

fun dec_digits :: "nat \<Rightarrow> nat \<Rightarrow> nat list" where
  "dec_digits 0 n = []"
| "dec_digits (Suc w) n = dec_digits w (n div 10) @ [n mod 10]"

section \<open>Relational repository (app/repositories/transaction\_repository.py)\<close>

text \<open>
  The database is PostgreSQL, the default of \<open>settings.database_url\<close>; the branches of the
  source for \<open>engine.dialect.name == 'sqlite'\<close> are not part of this model. The state of the
  table is the list of its rows. A truth value of SQL is a \<^typ>\<open>bool option\<close> with \<open>None\<close>
  for \<open>NULL\<close>, and \<open>WHERE\<close> keeps the rows for which the condition is true.

  Matching \<open>search_content ILIKE '%' || q.lower() || '%'\<close> is left to the database: its
  value for a row's \<open>search_content\<close> and the query \<open>q\<close> is the field \<open>search_content_ilike\<close>.
\<close>

record database =
  rows :: "Transaction list"
  search_content_ilike :: "string option \<Rightarrow> string \<Rightarrow> bool option"

definition sql_where :: "('r \<Rightarrow> bool option) \<Rightarrow> 'r list \<Rightarrow> 'r list" where
  "sql_where condition query = filter (\<lambda>r. condition r = Some True) query"

definition sql_and :: "bool option \<Rightarrow> bool option \<Rightarrow> bool option" where
  "sql_and a b =
     (if a = Some False \<or> b = Some False then Some False
      else if a = Some True \<and> b = Some True then Some True
      else None)"

definition sql_or :: "bool option \<Rightarrow> bool option \<Rightarrow> bool option" where
  "sql_or a b =
     (if a = Some True \<or> b = Some True then Some True
      else if a = Some False \<and> b = Some False then Some False
      else None)"

definition sql_is_not_null :: "'a option \<Rightarrow> bool option" where
  "sql_is_not_null x = Some (x \<noteq> None)"

definition sql_eq :: "'a option \<Rightarrow> 'a option \<Rightarrow> bool option" where
  "sql_eq x y = (case (x, y) of (Some a, Some b) \<Rightarrow> Some (a = b) | _ \<Rightarrow> None)"

text \<open>
  The operator \<open>->>\<close> on a \<open>json\<close> column: the member \<open>key\<close> of an object as text. It is
  \<open>NULL\<close> when the column is \<open>NULL\<close>, when the document is not an object, when the object
  has no such member, and when the member is the JSON \<open>null\<close>. A string is given without
  its quotes, any other value as it is written in the stored document, which SQLAlchemy
  writes with \<open>json.dumps\<close>. A stored document comes from a \<open>dict\<close>, so its keys are
  distinct.
\<close>

definition json_as_text :: "json \<Rightarrow> string option" where
  "json_as_text v =
     (case v of
        JNull \<Rightarrow> None
      | JStr s \<Rightarrow> Some s
      | _ \<Rightarrow> Some (json_dumps False v))"

definition json_field_text :: "json option \<Rightarrow> string \<Rightarrow> string option" where
  "json_field_text document key =
     (case document of
        Some (JObj members) \<Rightarrow>
          (case map_of members key of None \<Rightarrow> None | Some v \<Rightarrow> json_as_text v)
      | _ \<Rightarrow> None)"

text \<open>
  The condition that \<open>_apply_filters\<close> adds for one item of \<open>metadata_filters\<close>;
  \<open>given\<close> is \<open>str(value)\<close>.
\<close>

definition metadata_condition :: "string \<Rightarrow> string \<Rightarrow> Transaction \<Rightarrow> bool option" where
  "metadata_condition key given r =
     (let json_expr = json_field_text (custom_metadata r) key
      in sql_and (sql_is_not_null json_expr) (sql_eq json_expr (Some given)))"

text \<open>
  \<open>_apply_filters\<close>. The columns other than \<open>custom_metadata\<close> and \<open>search_content\<close> are
  \<open>NOT NULL\<close>, so a comparison on them is true or false. A member of the enumerations and
  a \<open>datetime\<close> are true values of Python; a string is true when it is not empty, a
  \<open>dict\<close> when it has an item. Amounts are compared in hundredths.
\<close>

definition apply_filters ::
  "database \<Rightarrow> TransactionFilter \<Rightarrow> Transaction list \<Rightarrow> Transaction list" where
  "apply_filters db filters query =
     (let q1 = (case f_transaction_type filters of
                  Some t \<Rightarrow> filter (\<lambda>r. transaction_type r = TransactionType_value t) query
                | None \<Rightarrow> query);
          q2 = (case f_product filters of
                  Some p \<Rightarrow> filter (\<lambda>r. product r = Product_value p) q1
                | None \<Rightarrow> q1);
          q3 = (case f_status filters of
                  Some s \<Rightarrow> filter (\<lambda>r. status r = TransactionStatus_value s) q2
                | None \<Rightarrow> q2);
          q4 = (if truthy (f_currency filters)
                then filter (\<lambda>r. currency r = the (f_currency filters)) q3 else q3);
          q5 = (case start_date filters of
                  Some d \<Rightarrow> filter (\<lambda>r. instant (created_at r) \<ge> instant d) q4
                | None \<Rightarrow> q4);
          q6 = (case end_date filters of
                  Some d \<Rightarrow> filter (\<lambda>r. instant (created_at r) \<le> instant d) q5
                | None \<Rightarrow> q5);
          q7 = (case min_amount filters of
                  Some a \<Rightarrow> filter (\<lambda>r. amount r \<ge> a) q6
                | None \<Rightarrow> q6);
          q8 = (case max_amount filters of
                  Some a \<Rightarrow> filter (\<lambda>r. amount r \<le> a) q7
                | None \<Rightarrow> q7);
          q9 = (if truthy (search_query filters)
                then sql_where (\<lambda>r. search_content_ilike db (search_content r)
                                        (the (search_query filters))) q8
                else q8)
      in (case metadata_filters filters of
            Some items \<Rightarrow> fold (\<lambda>(key, given). sql_where (metadata_condition key given)) items q9
          | None \<Rightarrow> q9))"

text \<open>
  \<open>ORDER BY created_at DESC, id DESC\<close>. A \<open>uuid\<close> column is compared as a 128-bit number
  and a \<open>timestamp with time zone\<close> column as an instant. \<open>id\<close> is the primary key, so no
  two rows have the same place in this order.
\<close>

definition order_key :: "Transaction \<Rightarrow> int \<times> nat" where
  "order_key r = (instant (created_at r), tx_id r)"

definition order_by_desc :: "Transaction list \<Rightarrow> Transaction list" where
  "order_by_desc query = rev (sort_key order_key query)"

text \<open>
  \<open>LIMIT n\<close> and \<open>OFFSET n\<close>; PostgreSQL refuses a negative \<open>n\<close>, and SQLAlchemy raises
  the error of the driver.
\<close>

definition sql_limit :: "int \<Rightarrow> 'r list \<Rightarrow> py_exception + 'r list" where
  "sql_limit n query = (if n < 0 then Inl DBAPIError else Inr (take (nat n) query))"

definition sql_offset :: "int \<Rightarrow> 'r list \<Rightarrow> py_exception + 'r list" where
  "sql_offset n query = (if n < 0 then Inl DBAPIError else Inr (drop (nat n) query))"

text \<open>The slice \<open>xs[:n]\<close>: a negative \<open>n\<close> counts from the end.\<close>

definition slice_to :: "int \<Rightarrow> 'r list \<Rightarrow> 'r list" where
  "slice_to n xs = (if n \<ge> 0 then take (nat n) xs else take (length xs - nat (- n)) xs)"

definition get_by_user_id ::
  "database \<Rightarrow> string \<Rightarrow> TransactionFilter option \<Rightarrow> PaginationParams option
   \<Rightarrow> py_exception + (Transaction list \<times> int)" where
  "get_by_user_id db uid filters pagination =
     (let query = filter (\<lambda>r. user_id r = uid) (rows db);
          query = (case filters of Some f \<Rightarrow> apply_filters db f query | None \<Rightarrow> query);
          total = int (length query)
      in case pagination of
           Some p \<Rightarrow>
             (let offset = (page p - 1) * page_size p
              in case sql_offset offset (order_by_desc query) of
                   Inl e \<Rightarrow> Inl e
                 | Inr skipped \<Rightarrow>
                     (case sql_limit (page_size p) skipped of
                        Inl e \<Rightarrow> Inl e
                      | Inr transactions \<Rightarrow> Inr (transactions, total)))
         | None \<Rightarrow> Inr (order_by_desc query, total))"

text \<open>
  The condition that a cursor adds: the row comes after the position
  \<open>(cursor_created_at, cursor_id)\<close> in the descending order.
\<close>

definition after_cursor :: "datetime \<Rightarrow> nat \<Rightarrow> Transaction \<Rightarrow> bool" where
  "after_cursor cursor_created_at cursor_id r =
     (instant (created_at r) < instant cursor_created_at
      \<or> (instant (created_at r) = instant cursor_created_at \<and> tx_id r < cursor_id))"

text \<open>
  \<open>get_by_user_id_cursor\<close>. An exception of \<open>decode_cursor\<close> or of \<open>UUID(...)\<close> is not
  caught here.
\<close>

definition get_by_user_id_cursor ::
  "database \<Rightarrow> string \<Rightarrow> TransactionFilter option \<Rightarrow> CursorPaginationParams option
   \<Rightarrow> py_exception + (Transaction list \<times> bool)" where
  "get_by_user_id_cursor db uid filters cursor_pagination =
     (let query = filter (\<lambda>r. user_id r = uid) (rows db);
          query = (case filters of Some f \<Rightarrow> apply_filters db f query | None \<Rightarrow> query);
          lim = (case cursor_pagination of Some cp \<Rightarrow> limit cp | None \<Rightarrow> 20);
          filtered =
            (case cursor_pagination of
               None \<Rightarrow> Inr query
             | Some cp \<Rightarrow>
                 if truthy (cursor cp) then
                   (case decode_cursor (the (cursor cp)) of
                      Inl e \<Rightarrow> Inl e
                    | Inr None \<Rightarrow> Inr query
                    | Inr (Some (cursor_id_value, cursor_created_at)) \<Rightarrow>
                        (case UUID cursor_id_value of
                           Inl e \<Rightarrow> Inl e
                         | Inr cursor_id \<Rightarrow>
                             Inr (filter (after_cursor cursor_created_at cursor_id) query)))
                 else Inr query)
      in case filtered of
           Inl e \<Rightarrow> Inl e
         | Inr query \<Rightarrow>
             (case sql_limit (lim + 1) (order_by_desc query) of
                Inl e \<Rightarrow> Inl e
              | Inr transactions \<Rightarrow>
                  (let has_more = int (length transactions) > lim
                   in Inr (slice_to lim transactions, has_more))))"

section \<open>Read-through cache of the query service (app/services/cache\_service.py, transaction\_service.py)\<close>

text \<open>
  \<open>CacheService\<close> as the query service uses it. \<open>entries\<close> is what Redis holds, each value
  read back by \<open>json.loads\<close> and rebuilt into the response it was dumped from. The state is
  stable: Redis answers, and no entry expires or is invalidated between the calls that are
  looked at. A stored page is a \<open>dict\<close> with items, so \<open>if cached_result\<close> holds exactly when
  there is an entry.
\<close>

record 'p CacheService =
  enabled :: bool
  entries :: "string \<Rightarrow> 'p option"

definition CacheService_get :: "'p CacheService \<Rightarrow> string \<Rightarrow> 'p option" where
  "CacheService_get cache_service key =
     (if \<not> enabled cache_service then None else entries cache_service key)"

definition CacheService_set :: "'p CacheService \<Rightarrow> string \<Rightarrow> 'p \<Rightarrow> 'p CacheService" where
  "CacheService_set cache_service key v =
     (if \<not> enabled cache_service then cache_service
      else cache_service\<lparr>entries := (entries cache_service)(key := Some v)\<rparr>)"

text \<open>
  \<open>get_transactions\<close> and \<open>get_transactions_cursor\<close>: the page that is returned and the
  cache afterwards. \<open>compute_page\<close> stands for the part of the method between the cache
  miss and \<open>cache_service.set\<close>: it reads the repository and the search service, does not
  touch the cache, and may raise.
\<close>

definition get_transactions ::
  "'p CacheService
   \<Rightarrow> (string \<Rightarrow> TransactionFilter option \<Rightarrow> PaginationParams option \<Rightarrow> py_exception + 'p)
   \<Rightarrow> string \<Rightarrow> TransactionFilter option \<Rightarrow> PaginationParams option
   \<Rightarrow> py_exception + ('p \<times> 'p CacheService)" where
  "get_transactions cache_service compute_page uid filters pagination =
     (let cache_key = build_cache_key uid filters pagination
      in case CacheService_get cache_service cache_key of
           Some cached_result \<Rightarrow> Inr (cached_result, cache_service)
         | None \<Rightarrow>
             (case compute_page uid filters pagination of
                Inl e \<Rightarrow> Inl e
              | Inr result \<Rightarrow> Inr (result, CacheService_set cache_service cache_key result)))"

definition get_transactions_cursor ::
  "'p CacheService
   \<Rightarrow> (string \<Rightarrow> TransactionFilter option \<Rightarrow> CursorPaginationParams option \<Rightarrow> py_exception + 'p)
   \<Rightarrow> string \<Rightarrow> TransactionFilter option \<Rightarrow> CursorPaginationParams option
   \<Rightarrow> py_exception + ('p \<times> 'p CacheService)" where
  "get_transactions_cursor cache_service compute_page uid filters cursor_pagination =
     (let cache_key = build_cache_key_cursor uid filters cursor_pagination
      in case CacheService_get cache_service cache_key of
           Some cached_result \<Rightarrow> Inr (cached_result, cache_service)
         | None \<Rightarrow>
             (case compute_page uid filters cursor_pagination of
                Inl e \<Rightarrow> Inl e
              | Inr result \<Rightarrow> Inr (result, CacheService_set cache_service cache_key result)))"

text \<open>
  \<open>PaginatedResponse\<close>, and the page that \<open>get_transactions\<close> computes on a miss when the
  filter has no \<open>search_query\<close>: the rows of \<open>repository.get_by_user_id\<close> and the page
  arithmetic. An item of the response is the row it was validated from.
\<close>

record PaginatedResponse =
  items :: "Transaction list"
  total :: int
  response_page :: int
  response_page_size :: int
  total_pages :: int

definition page_from_repository ::
  "database \<Rightarrow> string \<Rightarrow> TransactionFilter option \<Rightarrow> PaginationParams option
   \<Rightarrow> py_exception + PaginatedResponse" where
  "page_from_repository db uid filters pagination =
     (case get_by_user_id db uid filters pagination of
        Inl e \<Rightarrow> Inl e
      | Inr (transactions, total_count) \<Rightarrow>
          (let pg = (case pagination of Some p \<Rightarrow> page p | None \<Rightarrow> 1);
               sz = (case pagination of Some p \<Rightarrow> page_size p | None \<Rightarrow> 20)
           in if sz = 0 then Inl ZeroDivisionError
              else Inr \<lparr> items = transactions, total = total_count, response_page = pg,
                         response_page_size = sz,
                         total_pages = (total_count + sz - 1) div sz \<rparr>))"

text \<open>
  An example state: two rows of user \<open>u1\<close>, of 1.00 on 1 January and of 50.00 on
  2 January, an empty cache that is switched on, a filter with no field set, and the
  first page of twenty.
\<close>

definition example_row :: "nat \<Rightarrow> int \<Rightarrow> nat \<Rightarrow> Transaction" where
  "example_row i a d =
     \<lparr> tx_id = i, user_id = ''u1'', transaction_type = ''card'', product = ''Card'',
       status = ''completed'', currency = ''USD'', amount = a,
       created_at = \<lparr> year = 2024, month = 1, day = d, hour = 12, minute = 0, second = 0,
                      microsecond = 0, tzinfo = Some 0 \<rparr>,
       updated_at = None, custom_metadata = None, search_content = None \<rparr>"

definition row_one :: Transaction where
  "row_one = example_row 1 100 1"

definition row_two :: Transaction where
  "row_two = example_row 2 5000 2"

definition example_db :: database where
  "example_db = \<lparr> rows = [row_one, row_two], search_content_ilike = (\<lambda>c q. None) \<rparr>"

definition empty_cache :: "'p CacheService" where
  "empty_cache = \<lparr> enabled = True, entries = (\<lambda>k. None) \<rparr>"

definition no_filter :: TransactionFilter where
  "no_filter = \<lparr> f_user_id = None, f_transaction_type = None, f_product = None,
                 f_status = None, f_currency = None, start_date = None, end_date = None,
                 min_amount = None, max_amount = None, search_query = None,
                 metadata_filters = None \<rparr>"

definition first_page :: PaginationParams where
  "first_page = \<lparr> page = 1, page_size = 20 \<rparr>"

section \<open>The route of one record (app/api/routes/transactions.py)\<close>



chapter \<open>Properties\<close>

section \<open>Circuit breaker\<close>

lemma call_keeps_params:
  "failure_threshold (breaker (call en a cb)) = failure_threshold cb"
  "expected_exception (breaker (call en a cb)) = expected_exception cb"
  "timeout (breaker (call en a cb)) = timeout cb"
  "half_open_success_threshold (breaker (call en a cb)) = half_open_success_threshold cb"
  by (auto simp: call_def run_func_def on_failure_def on_success_def Let_def split: sum.splits)

lemma expected_failure_call:
  "expected_failure (breaker (call en a cb)) x = expected_failure cb x"
  by (simp add: expected_failure_def call_keeps_params split: sum.splits)

lemma calls_keeps_params:
  "failure_threshold (calls en as cb) = failure_threshold cb"
  "expected_exception (calls en as cb) = expected_exception cb"
  "timeout (calls en as cb) = timeout cb"
  "half_open_success_threshold (calls en as cb) = half_open_success_threshold cb"
  by (induction as arbitrary: cb) (simp_all add: call_keeps_params)

lemma expected_failure_calls:
  "expected_failure (calls en as cb) x = expected_failure cb x"
  by (simp add: expected_failure_def calls_keeps_params split: sum.splits)

text \<open>
  What the constructor establishes and \<open>call\<close> and \<open>reset\<close> keep: the parameters, two
  successes to close, and counters that are never negative.
\<close>

lemma call_counters:
  "0 \<le> failure_count cb \<Longrightarrow> 0 \<le> failure_count (breaker (call en a cb))"
  "0 \<le> success_count cb \<Longrightarrow> 0 \<le> success_count (breaker (call en a cb))"
  by (auto simp: call_def run_func_def on_failure_def on_success_def Let_def split: sum.splits)

lemma operations_invariant:
  assumes "0 \<le> failure_count cb" "0 \<le> success_count cb"
  shows "0 \<le> failure_count (operations en ops cb)"
    and "0 \<le> success_count (operations en ops cb)"
    and "failure_threshold (operations en ops cb) = failure_threshold cb"
    and "expected_exception (operations en ops cb) = expected_exception cb"
    and "timeout (operations en ops cb) = timeout cb"
    and "half_open_success_threshold (operations en ops cb) = half_open_success_threshold cb"
  using assms
  by (induction en ops cb rule: operations.induct)
     (simp_all add: call_keeps_params call_counters reset_def)

lemma constructed:
  "0 \<le> failure_count (operations en history (CircuitBreaker_init threshold tmo expected))"
  "failure_threshold (operations en history (CircuitBreaker_init threshold tmo expected))
     = threshold"
  "timeout (operations en history (CircuitBreaker_init threshold tmo expected)) = tmo"
  "half_open_success_threshold
     (operations en history (CircuitBreaker_init threshold tmo expected)) = 2"
  using operations_invariant[of "CircuitBreaker_init threshold tmo expected" en history]
  by (simp_all add: CircuitBreaker_init_def)

lemma failure_step:
  assumes "expected_failure cb a"
  shows "state cb = OPEN \<Longrightarrow> state (breaker (call True a cb)) = OPEN"
    and "state cb = CLOSED \<Longrightarrow>
           (if failure_count cb + 1 \<ge> failure_threshold cb
            then state (breaker (call True a cb)) = OPEN
            else state (breaker (call True a cb)) = CLOSED \<and>
                 failure_count (breaker (call True a cb)) = failure_count cb + 1)"
  using assms
  by (auto simp: call_def run_func_def on_failure_def expected_failure_def Let_def
           split: sum.splits)

lemma open_stays_open:
  "state cb = OPEN \<Longrightarrow> \<forall>a \<in> set as. expected_failure cb a \<Longrightarrow>
   state (calls True as cb) = OPEN"
proof (induction as arbitrary: cb)
  case Nil
  then show ?case by simp
next
  case (Cons a as)
  have "state (breaker (call True a cb)) = OPEN"
    using Cons.prems failure_step(1)[of cb a] by simp
  moreover have "\<forall>x\<in>set as. expected_failure (breaker (call True a cb)) x"
    using Cons.prems by (simp add: expected_failure_call)
  ultimately show ?case using Cons.IH by simp
qed

text \<open>
  While the breaker has not opened, the failure counter has grown by one per failed call
  and is still below the threshold.
\<close>

lemma closed_run:
  "state cb = CLOSED \<Longrightarrow> \<forall>a \<in> set as. expected_failure cb a \<Longrightarrow>
   state (calls True as cb) = OPEN \<or> as = [] \<or>
   (state (calls True as cb) = CLOSED \<and>
    failure_count (calls True as cb) = failure_count cb + int (length as) \<and>
    failure_count cb + int (length as) < failure_threshold cb)"
proof (induction as arbitrary: cb)
  case Nil
  then show ?case by simp
next
  case (Cons a as)
  let ?cb = "breaker (call True a cb)"
  have ef: "\<forall>x\<in>set as. expected_failure ?cb x"
    using Cons.prems by (simp add: expected_failure_call)
  show ?case
  proof (cases "failure_count cb + 1 \<ge> failure_threshold cb")
    case True
    then have "state ?cb = OPEN"
      using failure_step(2)[of cb a] Cons.prems by simp
    then show ?thesis using open_stays_open[OF _ ef] by simp
  next
    case False
    then have st: "state ?cb = CLOSED" "failure_count ?cb = failure_count cb + 1"
      using failure_step(2)[of cb a] Cons.prems by simp_all
    from Cons.IH[OF st(1) ef] show ?thesis
      using st False by (auto simp: call_keeps_params)
  qed
qed

text \<open>
  The time of the last failure after a run of failing calls: a call that is let through
  records the instant at which it failed, a call that is rejected records nothing.
\<close>

lemma failure_time_step:
  assumes "expected_failure cb a"
  shows "last_failure_time (breaker (call True a cb)) = Some (finished a) \<or>
         (state cb = OPEN \<and> breaker (call True a cb) = cb)"
  using assms
  by (auto simp: call_def run_func_def on_failure_def expected_failure_def Let_def
           split: sum.splits)

lemma failure_time_run:
  "\<forall>a \<in> set as. expected_failure cb a \<Longrightarrow>
   last_failure_time (calls True as cb) = last_failure_time cb \<or>
   (\<exists>a \<in> set as. last_failure_time (calls True as cb) = Some (finished a))"
proof (induction as arbitrary: cb)
  case Nil
  then show ?case by simp
next
  case (Cons a as)
  let ?cb = "breaker (call True a cb)"
  have ef: "\<forall>x\<in>set as. expected_failure ?cb x"
    using Cons.prems by (simp add: expected_failure_call)
  have step: "last_failure_time ?cb = Some (finished a) \<or> ?cb = cb"
    using failure_time_step[of cb a] Cons.prems by auto
  from Cons.IH[OF ef] step show ?case by auto
qed

lemma failure_time_closed_run:
  assumes "state cb = CLOSED" "as \<noteq> []" "\<forall>a \<in> set as. expected_failure cb a"
  shows "\<exists>a \<in> set as. last_failure_time (calls True as cb) = Some (finished a)"
proof -
  obtain a as' where as: "as = a # as'" using assms(2) by (cases as) auto
  let ?cb = "breaker (call True a cb)"
  have ef: "\<forall>x\<in>set as'. expected_failure ?cb x"
    using assms(3) as by (simp add: expected_failure_call)
  have first: "last_failure_time ?cb = Some (finished a)"
    using failure_time_step[of cb a] assms(1,3) as by auto
  from failure_time_run[OF ef] first show ?thesis unfolding as by auto
qed

text \<open>An OPEN breaker before its timeout rejects the call and stays as it is.\<close>

lemma rejected:
  assumes "state cb = OPEN" "last_failure_time cb = Some t"
    "started r - t < timeout cb * 1000000"
  shows "call True r cb =
           \<lparr> outcome = Inl CircuitBreakerOpenError, invoked = False, breaker = cb \<rparr>"
  using assms by (simp add: call_def should_attempt_reset_def)

lemma rejected_run:
  assumes "state cb = OPEN" "last_failure_time cb = Some t"
    "\<forall>r \<in> set rs. started r - t < timeout cb * 1000000"
  shows "calls True rs cb = cb"
  using assms(3)
  by (induction rs) (simp_all add: rejected[OF assms(1,2)])

lemma admitted:
  assumes "state cb = OPEN" "last_failure_time cb = Some t"
    "timeout cb * 1000000 \<le> started p - t"
  shows "call True p cb = run_func p (cb\<lparr>state := HALF_OPEN, success_count := 0\<rparr>)"
  using assms by (simp add: call_def should_attempt_reset_def)

lemma run_func_invoked: "invoked (run_func a cb)"
  by (simp add: run_func_def split: sum.splits)

lemma probe_success:
  assumes "succeeds p" "half_open_success_threshold cb = 2"
  shows "breaker (run_func p (cb\<lparr>state := HALF_OPEN, success_count := 0\<rparr>)) =
           cb\<lparr>state := HALF_OPEN, success_count := 1\<rparr>"
  using assms by (auto simp: run_func_def on_success_def succeeds_def Let_def split: sum.splits)

lemma second_success:
  assumes "succeeds s" "half_open_success_threshold cb = 2"
  shows "breaker (call True s (cb\<lparr>state := HALF_OPEN, success_count := 1\<rparr>)) =
           cb\<lparr>state := CLOSED, failure_count := 0, success_count := 0\<rparr>"
  using assms
  by (auto simp: call_def run_func_def on_success_def succeeds_def Let_def split: sum.splits)

lemma half_open_failure:
  assumes "state cb = HALF_OPEN" "expected_failure cb a"
  shows "state (breaker (call True a cb)) = OPEN"
    and "last_failure_time (breaker (call True a cb)) = Some (finished a)"
  using assms
  by (auto simp: call_def run_func_def on_failure_def expected_failure_def Let_def
           split: sum.splits)

lemma probe_failure:
  assumes "expected_failure cb p"
  shows "state (breaker (run_func p (cb\<lparr>state := HALF_OPEN, success_count := 0\<rparr>))) = OPEN"
    and "last_failure_time (breaker (run_func p (cb\<lparr>state := HALF_OPEN, success_count := 0\<rparr>)))
           = Some (finished p)"
  using assms
  by (auto simp: run_func_def on_failure_def expected_failure_def Let_def split: sum.splits)

text \<open>With the switch off, \<open>call\<close> is the wrapped callable and nothing else.\<close>

lemma calls_disabled: "calls False as cb = cb"
  by (induction as) (simp_all add: call_def)

text \<open>
  C4, as amended. Let \<open>cb0\<close> be a breaker as the program can have it: made by the
  constructor and then used through \<open>call\<close> and \<open>reset\<close> in any way (\<open>history\<close>). With
  \<open>settings.circuit_breaker_enabled\<close> switched on, one run of calls on it goes as follows.

  \<^item> If \<open>cb0\<close> is CLOSED and the non-empty run \<open>as\<close> of at least \<open>failure_threshold\<close> calls
    all raise an expected exception, the breaker \<open>cb1\<close> after the run is OPEN and its
    \<open>last_failure_time\<close> is the instant at which one of these calls failed.
  \<^item> Every call \<open>r\<close> made after that less than \<open>timeout\<close> seconds after this instant raises
    \<open>CircuitBreakerOpenError\<close> without invoking its callable, and any number of such calls
    \<open>rs\<close> leaves the breaker exactly as it was.
  \<^item> The next call \<open>probe\<close>, made \<open>timeout\<close> seconds or more after that instant, is
    admitted: its callable is invoked, with the breaker in HALF_OPEN and the success
    counter at zero.
  \<^item> If \<open>probe\<close> succeeds the breaker stays HALF_OPEN, and if the call after it (\<open>second\<close>)
    succeeds too the breaker is CLOSED and its failure counter is zero.
  \<^item> If the admitted call raises an expected exception (\<open>probe_f\<close>), or the call after a
    successful probe does (\<open>second_f\<close>), the breaker is OPEN again and
    \<open>last_failure_time\<close> is the instant of this failure.

  Moreover, for any breaker at all: an expected failure in HALF_OPEN makes it OPEN and sets
  \<open>last_failure_time\<close> to the instant of the failure. And with
  \<open>settings.circuit_breaker_enabled\<close> switched off, every call invokes the callable,
  gives the caller what the callable gave, and leaves the breaker unchanged, whatever its
  state; so does any sequence of calls.
\<close>

theorem breaker_trajectory:
  fixes threshold tmo :: int
    and expected :: "'e \<Rightarrow> bool"
    and history :: "('e, 'a) operation list"
    and as rs as_any :: "('e, 'a) attempt list"
    and probe second probe_f second_f a_fail a_any :: "('e, 'a) attempt"
    and cb_half cb_any :: "'e CircuitBreaker"
  shows
  "(let cb0 = operations True history (CircuitBreaker_init threshold tmo expected);
        cb1 = calls True as cb0;
        cb2 = calls True rs cb1
    in state cb0 = CLOSED \<and> as \<noteq> [] \<and> threshold \<le> int (length as) \<and>
       (\<forall>a \<in> set as. expected_failure cb0 a)
       \<longrightarrow> state cb1 = OPEN
           \<and> (\<exists>a \<in> set as. last_failure_time cb1 = Some (finished a))
           \<and> ((\<forall>r \<in> set rs. started r - the (last_failure_time cb1) < tmo * 1000000)
                \<longrightarrow> (\<forall>r \<in> set rs. call True r cb1 =
                        \<lparr> outcome = Inl CircuitBreakerOpenError, invoked = False,
                          breaker = cb1 \<rparr>)
                    \<and> cb2 = cb1
                    \<and> (tmo * 1000000 \<le> started probe - the (last_failure_time cb1)
                         \<longrightarrow> invoked (call True probe cb2)
                             \<and> call True probe cb2 =
                                 run_func probe (cb1\<lparr>state := HALF_OPEN, success_count := 0\<rparr>)
                             \<and> (succeeds probe
                                  \<longrightarrow> state (calls True [probe] cb2) = HALF_OPEN
                                      \<and> (succeeds second
                                           \<longrightarrow> state (calls True [probe, second] cb2) = CLOSED
                                               \<and> failure_count (calls True [probe, second] cb2) = 0)
                                      \<and> (expected_failure cb0 second_f
                                           \<longrightarrow> state (calls True [probe, second_f] cb2) = OPEN
                                               \<and> last_failure_time (calls True [probe, second_f] cb2)
                                                   = Some (finished second_f))))
                    \<and> (tmo * 1000000 \<le> started probe_f - the (last_failure_time cb1)
                         \<and> expected_failure cb0 probe_f
                         \<longrightarrow> invoked (call True probe_f cb2)
                             \<and> state (calls True [probe_f] cb2) = OPEN
                             \<and> last_failure_time (calls True [probe_f] cb2)
                                 = Some (finished probe_f))))
   \<and> (state cb_half = HALF_OPEN \<and> expected_failure cb_half a_fail
      \<longrightarrow> state (breaker (call True a_fail cb_half)) = OPEN \<and>
          last_failure_time (breaker (call True a_fail cb_half)) = Some (finished a_fail))
   \<and> call False a_any cb_any =
        \<lparr> outcome = (case behaviour a_any of Inl e \<Rightarrow> Inl (Raised e) | Inr v \<Rightarrow> Inr v),
          invoked = True, breaker = cb_any \<rparr>
   \<and> calls False as_any cb_any = cb_any"
proof -
  define cb0 where "cb0 = operations True history (CircuitBreaker_init threshold tmo expected)"
  define cb1 where "cb1 = calls True as cb0"
  define cb2 where "cb2 = calls True rs cb1"
  have p0: "0 \<le> failure_count cb0" "failure_threshold cb0 = threshold" "timeout cb0 = tmo"
    "half_open_success_threshold cb0 = 2"
    unfolding cb0_def by (rule constructed)+
  have p1: "timeout cb1 = tmo" "half_open_success_threshold cb1 = 2"
    "\<And>x. expected_failure cb1 x = expected_failure cb0 x"
    unfolding cb1_def using p0 by (simp_all add: calls_keeps_params expected_failure_calls)
  have main: "state cb1 = OPEN
           \<and> (\<exists>a \<in> set as. last_failure_time cb1 = Some (finished a))
           \<and> ((\<forall>r \<in> set rs. started r - the (last_failure_time cb1) < tmo * 1000000)
                \<longrightarrow> (\<forall>r \<in> set rs. call True r cb1 =
                        \<lparr> outcome = Inl CircuitBreakerOpenError, invoked = False,
                          breaker = cb1 \<rparr>)
                    \<and> cb2 = cb1
                    \<and> (tmo * 1000000 \<le> started probe - the (last_failure_time cb1)
                         \<longrightarrow> invoked (call True probe cb2)
                             \<and> call True probe cb2 =
                                 run_func probe (cb1\<lparr>state := HALF_OPEN, success_count := 0\<rparr>)
                             \<and> (succeeds probe
                                  \<longrightarrow> state (calls True [probe] cb2) = HALF_OPEN
                                      \<and> (succeeds second
                                           \<longrightarrow> state (calls True [probe, second] cb2) = CLOSED
                                               \<and> failure_count (calls True [probe, second] cb2) = 0)
                                      \<and> (expected_failure cb0 second_f
                                           \<longrightarrow> state (calls True [probe, second_f] cb2) = OPEN
                                               \<and> last_failure_time (calls True [probe, second_f] cb2)
                                                   = Some (finished second_f))))
                    \<and> (tmo * 1000000 \<le> started probe_f - the (last_failure_time cb1)
                         \<and> expected_failure cb0 probe_f
                         \<longrightarrow> invoked (call True probe_f cb2)
                             \<and> state (calls True [probe_f] cb2) = OPEN
                             \<and> last_failure_time (calls True [probe_f] cb2)
                                 = Some (finished probe_f)))"
    if h: "state cb0 = CLOSED" "as \<noteq> []" "threshold \<le> int (length as)"
      "\<forall>a \<in> set as. expected_failure cb0 a"
  proof -
    have op: "state cb1 = OPEN"
      using closed_run[OF h(1,4)] h(2,3) p0 unfolding cb1_def by auto
    have "\<exists>a \<in> set as. last_failure_time cb1 = Some (finished a)"
      unfolding cb1_def by (rule failure_time_closed_run[OF h(1,2,4)])
    then obtain a where a: "a \<in> set as" "last_failure_time cb1 = Some (finished a)" by auto
    have rest: "(\<forall>r \<in> set rs. call True r cb1 =
                        \<lparr> outcome = Inl CircuitBreakerOpenError, invoked = False,
                          breaker = cb1 \<rparr>)
                    \<and> cb2 = cb1
                    \<and> (tmo * 1000000 \<le> started probe - the (last_failure_time cb1)
                         \<longrightarrow> invoked (call True probe cb2)
                             \<and> call True probe cb2 =
                                 run_func probe (cb1\<lparr>state := HALF_OPEN, success_count := 0\<rparr>)
                             \<and> (succeeds probe
                                  \<longrightarrow> state (calls True [probe] cb2) = HALF_OPEN
                                      \<and> (succeeds second
                                           \<longrightarrow> state (calls True [probe, second] cb2) = CLOSED
                                               \<and> failure_count (calls True [probe, second] cb2) = 0)
                                      \<and> (expected_failure cb0 second_f
                                           \<longrightarrow> state (calls True [probe, second_f] cb2) = OPEN
                                               \<and> last_failure_time (calls True [probe, second_f] cb2)
                                                   = Some (finished second_f))))
                    \<and> (tmo * 1000000 \<le> started probe_f - the (last_failure_time cb1)
                         \<and> expected_failure cb0 probe_f
                         \<longrightarrow> invoked (call True probe_f cb2)
                             \<and> state (calls True [probe_f] cb2) = OPEN
                             \<and> last_failure_time (calls True [probe_f] cb2)
                                 = Some (finished probe_f))"
      if r: "\<forall>r \<in> set rs. started r - the (last_failure_time cb1) < tmo * 1000000"
    proof -
      have r': "\<forall>r \<in> set rs. started r - finished a < timeout cb1 * 1000000"
        using r a(2) p1(1) by simp
      have each: "\<forall>r \<in> set rs. call True r cb1 =
                        \<lparr> outcome = Inl CircuitBreakerOpenError, invoked = False,
                          breaker = cb1 \<rparr>"
        using rejected[OF op a(2)] r' by blast
      have same: "cb2 = cb1"
        unfolding cb2_def by (rule rejected_run[OF op a(2) r'])
      have adm: "call True p cb1 = run_func p (cb1\<lparr>state := HALF_OPEN, success_count := 0\<rparr>)"
        if "tmo * 1000000 \<le> started p - the (last_failure_time cb1)" for p
        using admitted[OF op a(2), of p] that a(2) p1(1) by simp
      have ok: "state (calls True [probe] cb2) = HALF_OPEN
             \<and> (succeeds second
                  \<longrightarrow> state (calls True [probe, second] cb2) = CLOSED
                      \<and> failure_count (calls True [probe, second] cb2) = 0)
             \<and> (expected_failure cb0 second_f
                  \<longrightarrow> state (calls True [probe, second_f] cb2) = OPEN
                      \<and> last_failure_time (calls True [probe, second_f] cb2)
                          = Some (finished second_f))"
        if d: "tmo * 1000000 \<le> started probe - the (last_failure_time cb1)" and s: "succeeds probe"
      proof -
        have b: "breaker (call True probe cb1) = cb1\<lparr>state := HALF_OPEN, success_count := 1\<rparr>"
          using adm[OF d] probe_success[OF s p1(2)] by simp
        have ef: "expected_failure (cb1\<lparr>state := HALF_OPEN, success_count := 1\<rparr>) x
                    = expected_failure cb0 x" for x
          using p1(3)[of x] by (simp add: expected_failure_def split: sum.splits)
        show ?thesis
          using b second_success[OF _ p1(2), of second]
            half_open_failure[of "cb1\<lparr>state := HALF_OPEN, success_count := 1\<rparr>" second_f]
          by (simp add: same ef)
      qed
      have bad: "invoked (call True probe_f cb2)
                 \<and> state (calls True [probe_f] cb2) = OPEN
                 \<and> last_failure_time (calls True [probe_f] cb2) = Some (finished probe_f)"
        if d: "tmo * 1000000 \<le> started probe_f - the (last_failure_time cb1)"
          and f: "expected_failure cb0 probe_f"
        using adm[OF d] probe_failure[of cb1 probe_f] f p1(3)[of probe_f]
        by (simp add: same run_func_invoked)
      show ?thesis
        using each same adm[of probe] ok bad by (simp add: run_func_invoked)
    qed
    show ?thesis using op a rest by blast
  qed
  have half: "state cb_half = HALF_OPEN \<and> expected_failure cb_half a_fail
      \<longrightarrow> state (breaker (call True a_fail cb_half)) = OPEN \<and>
          last_failure_time (breaker (call True a_fail cb_half)) = Some (finished a_fail)"
    using half_open_failure[of cb_half a_fail] by simp
  have off: "call False a_any cb_any =
        \<lparr> outcome = (case behaviour a_any of Inl e \<Rightarrow> Inl (Raised e) | Inr v \<Rightarrow> Inr v),
          invoked = True, breaker = cb_any \<rparr>"
    by (simp add: call_def)
  show ?thesis
    unfolding Let_def cb0_def[symmetric] cb1_def[symmetric] cb2_def[symmetric]
    using main half off calls_disabled[of as_any cb_any] by blast
qed

theorem breaker_trajectory_witness:
  "(let cb0 = operations True [Call (fail_at (-20)), Call (ok_at (-10))]
                (CircuitBreaker_init 5 60 any_exception);
        cb1 = calls True (map fail_at [0, 1, 2, 3, 4]) cb0
    in state cb0 = CLOSED \<and> state cb1 = OPEN \<and> last_failure_time cb1 = Some 5
       \<and> call True (fail_at 6) cb1 =
           \<lparr> outcome = Inl CircuitBreakerOpenError, invoked = False, breaker = cb1 \<rparr>
       \<and> calls True [fail_at 6, ok_at 59000000] cb1 = cb1
       \<and> invoked (call True (ok_at 60000005) cb1)
       \<and> state (calls True [ok_at 60000005] cb1) = HALF_OPEN
       \<and> state (calls True [ok_at 60000005, ok_at 60000010] cb1) = CLOSED
       \<and> failure_count (calls True [ok_at 60000005, ok_at 60000010] cb1) = 0
       \<and> state (calls True [ok_at 60000005, fail_at 60000010] cb1) = OPEN
       \<and> last_failure_time (calls True [ok_at 60000005, fail_at 60000010] cb1) = Some 60000011
       \<and> state (calls True [fail_at 60000005] cb1) = OPEN
       \<and> last_failure_time (calls True [fail_at 60000005] cb1) = Some 60000006)
   \<and> state (breaker (call True (fail_at 7)
        ((CircuitBreaker_init 5 60 any_exception)\<lparr>state := HALF_OPEN\<rparr>))) = OPEN
   \<and> invoked (call False (fail_at 0) (CircuitBreaker_init 5 60 any_exception))
   \<and> calls False (map fail_at [0, 1, 2, 3, 4]) (CircuitBreaker_init 5 60 any_exception)
        = CircuitBreaker_init 5 60 any_exception"
proof -
  define cb0 where "cb0 = operations True [Call (fail_at (-20)), Call (ok_at (-10))]
                (CircuitBreaker_init 5 60 any_exception)"
  define cb1 where "cb1 = calls True (map fail_at [0, 1, 2, 3, 4]) cb0"
  define cb2 where "cb2 = calls True [fail_at 6, ok_at 59000000] cb1"
  have v0: "cb0 =
     \<lparr> failure_threshold = 5, timeout = 60, expected_exception = any_exception,
       failure_count = 0, last_failure_time = Some (-19), state = CLOSED,
       success_count = 0, half_open_success_threshold = 2 \<rparr>"
    unfolding cb0_def
    by (simp add: CircuitBreaker_init_def fail_at_def ok_at_def any_exception_def
          call_def run_func_def on_success_def on_failure_def should_attempt_reset_def Let_def)
  have v1: "cb1 =
     \<lparr> failure_threshold = 5, timeout = 60, expected_exception = any_exception,
       failure_count = 5, last_failure_time = Some 5, state = OPEN,
       success_count = 0, half_open_success_threshold = 2 \<rparr>"
    unfolding cb1_def v0
    by (simp add: fail_at_def any_exception_def call_def run_func_def on_failure_def
          should_attempt_reset_def Let_def)
  have hyp: "state cb0 = CLOSED" "map fail_at [0, 1, 2, 3, 4] \<noteq> []"
    "(5::int) \<le> int (length (map fail_at [0, 1, 2, 3, 4]))"
    "\<forall>a \<in> set (map fail_at [0, 1, 2, 3, 4]). expected_failure cb0 a"
    "\<forall>r \<in> set [fail_at 6, ok_at 59000000].
        started r - the (last_failure_time cb1) < 60 * 1000000"
    "60 * 1000000 \<le> started (ok_at 60000005) - the (last_failure_time cb1)"
    "succeeds (ok_at 60000005)" "succeeds (ok_at 60000010)"
    "expected_failure cb0 (fail_at 60000010)"
    "60 * 1000000 \<le> started (fail_at 60000005) - the (last_failure_time cb1)"
    "expected_failure cb0 (fail_at 60000005)"
    "state ((CircuitBreaker_init 5 60 any_exception)\<lparr>state := HALF_OPEN\<rparr>) = HALF_OPEN"
    "expected_failure ((CircuitBreaker_init 5 60 any_exception)\<lparr>state := HALF_OPEN\<rparr>)
       (fail_at 7)"
    by (simp_all add: v0 v1 fail_at_def ok_at_def any_exception_def expected_failure_def
          succeeds_def CircuitBreaker_init_def)
  note t = breaker_trajectory[where threshold = 5 and tmo = 60 and expected = any_exception
      and history = "[Call (fail_at (-20)), Call (ok_at (-10))]"
      and as = "map fail_at [0, 1, 2, 3, 4]"
      and rs = "[fail_at 6, ok_at 59000000]"
      and probe = "ok_at 60000005" and second = "ok_at 60000010"
      and probe_f = "fail_at 60000005" and second_f = "fail_at 60000010"
      and cb_half = "(CircuitBreaker_init 5 60 any_exception)\<lparr>state := HALF_OPEN\<rparr>"
      and a_fail = "fail_at 7"
      and a_any = "fail_at 0" and cb_any = "CircuitBreaker_init 5 60 any_exception"
      and as_any = "map fail_at [0, 1, 2, 3, 4]",
      unfolded Let_def, folded cb0_def, folded cb1_def, folded cb2_def]
  have same: "cb2 = cb1" using t hyp by blast
  have lft: "last_failure_time cb1 = Some 5" by (simp add: v1)
  have "\<forall>r \<in> set [fail_at 6, ok_at 59000000]. call True r cb1 =
           \<lparr> outcome = Inl CircuitBreakerOpenError, invoked = False, breaker = cb1 \<rparr>"
    using t hyp by blast
  then have rej: "call True (fail_at 6) cb1 =
           \<lparr> outcome = Inl CircuitBreakerOpenError, invoked = False, breaker = cb1 \<rparr>"
    by simp
  have rest: "state cb1 = OPEN"
    "invoked (call True (ok_at 60000005) cb1)"
    "state (calls True [ok_at 60000005] cb1) = HALF_OPEN"
    "state (calls True [ok_at 60000005, ok_at 60000010] cb1) = CLOSED"
    "failure_count (calls True [ok_at 60000005, ok_at 60000010] cb1) = 0"
    "state (calls True [ok_at 60000005, fail_at 60000010] cb1) = OPEN"
    "state (calls True [fail_at 60000005] cb1) = OPEN"
    "state (breaker (call True (fail_at 7)
        ((CircuitBreaker_init 5 60 any_exception)\<lparr>state := HALF_OPEN\<rparr>))) = OPEN"
    "calls False (map fail_at [0, 1, 2, 3, 4]) (CircuitBreaker_init 5 60 any_exception)
        = CircuitBreaker_init 5 60 any_exception"
    using t hyp unfolding same by blast+
  have "call False (fail_at 0) (CircuitBreaker_init 5 60 any_exception) =
        \<lparr> outcome = (case behaviour (fail_at 0) of Inl e \<Rightarrow> Inl (Raised e)
                     | Inr v \<Rightarrow> Inr v),
          invoked = True, breaker = CircuitBreaker_init 5 60 any_exception \<rparr>"
    using t by blast
  then have off: "invoked (call False (fail_at 0) (CircuitBreaker_init 5 60 any_exception))"
    by simp
  have "last_failure_time (calls True [ok_at 60000005, fail_at 60000010] cb1)
          = Some (finished (fail_at 60000010))"
    "last_failure_time (calls True [fail_at 60000005] cb1) = Some (finished (fail_at 60000005))"
    using t hyp unfolding same by blast+
  then have times:
    "last_failure_time (calls True [ok_at 60000005, fail_at 60000010] cb1) = Some 60000011"
    "last_failure_time (calls True [fail_at 60000005] cb1) = Some 60000006"
    by (simp_all add: fail_at_def)
  show ?thesis
    unfolding Let_def cb0_def[symmetric] cb1_def[symmetric]
    using hyp(1) lft rej same[unfolded cb2_def] rest off times by simp
qed

text \<open>
  C4 as the specification states it fails in three ways, each at a breaker that the
  constructor and \<open>call\<close> produce.

  \<^item> With \<open>settings.circuit_breaker_enabled\<close> off, the default of app/config.py, five
    failing calls on a fresh breaker with threshold 5 leave it CLOSED.
  \<^item> With the switch on and \<open>expected_exception=ConnectionError\<close>: one failure opens a
    breaker with threshold 1; the call made after the timeout is admitted and raises
    another exception; the breaker is then HALF_OPEN, not OPEN. So not every failure in
    HALF_OPEN reopens the breaker, only an expected one.
  \<^item> With the switch on and \<open>failure_threshold=0\<close>, the empty run is a run of
    \<open>failure_threshold\<close> failures, and the breaker is still CLOSED.
\<close>

theorem breaker_claim_counterexample:
  "state (calls False (map fail_at [0, 1, 2, 3, 4]) (CircuitBreaker_init 5 60 any_exception))
     = CLOSED
   \<and> state (calls True [raise_at ConnectionError 0]
        (CircuitBreaker_init 1 60 only_connection_errors)) = OPEN
   \<and> invoked (call True (raise_at OtherError 60000001)
        (calls True [raise_at ConnectionError 0]
           (CircuitBreaker_init 1 60 only_connection_errors)))
   \<and> state (calls True [raise_at ConnectionError 0, raise_at OtherError 60000001]
        (CircuitBreaker_init 1 60 only_connection_errors)) = HALF_OPEN
   \<and> state (calls True [] (CircuitBreaker_init 0 60 any_exception)) = CLOSED"
  by (simp add: CircuitBreaker_init_def fail_at_def raise_at_def only_connection_errors_def
        any_exception_def call_def run_func_def on_success_def on_failure_def
        should_attempt_reset_def Let_def)

section \<open>Base64 round trip\<close>

definition b64_rt :: "nat \<Rightarrow> bool" where
  "b64_rt i = (b64_value (urlsafe_decode_char (urlsafe_encode_char (b64_char i))) = Some i \<and>
     urlsafe_decode_char (urlsafe_encode_char (b64_char i)) \<noteq> CHR ''='')"

lemma b64_rt_all: "\<forall>i \<in> set [0..<64]. b64_rt i"
  by code_simp

lemma b64_char_value:
  assumes "i < 64"
  shows "b64_value (urlsafe_decode_char (urlsafe_encode_char (b64_char i))) = Some i"
    and "urlsafe_decode_char (urlsafe_encode_char (b64_char i)) \<noteq> CHR ''=''"
  using b64_rt_all assms by (auto simp: b64_rt_def)

lemma a2b_data:
  assumes "i < 64"
  shows "a2b_base64 (urlsafe_decode_char (urlsafe_encode_char (b64_char i)) # cs) q l p out =
     (if q = 0 then a2b_base64 cs 1 i 0 out
      else if q = 1 then a2b_base64 cs 2 (i mod 16) 0 (out @ [char_of (l * 4 + i div 16)])
      else if q = 2 then a2b_base64 cs 3 (i mod 4) 0 (out @ [char_of (l * 16 + i div 4)])
      else a2b_base64 cs 0 0 0 (out @ [char_of (l * 64 + i)]))"
  using b64_char_value[OF assms] by simp

lemma a2b_pad:
  "a2b_base64 (urlsafe_decode_char (urlsafe_encode_char CHR ''='') # cs) q l p out =
     (if q \<ge> 2 then (if q + (p + 1) \<ge> 4 then Inr out else a2b_base64 cs q l (p + 1) out)
      else a2b_base64 cs q l p out)"
  by (simp add: urlsafe_decode_char_def urlsafe_encode_char_def)

lemma b64_roundtrip_gen:
  "a2b_base64 (map (urlsafe_decode_char \<circ> urlsafe_encode_char) (b64encode bs)) 0 l p out
   = Inr (out @ bs)"
proof (induction bs arbitrary: l p out rule: b64encode.induct)
  case 1
  then show ?case by simp
next
  case (2 a)
  define x where "x = (of_char a :: nat)"
  have x: "x < 256" by (simp add: x_def)
  have i1: "x div 4 < 64" and i2: "(x mod 4) * 16 < 64" using x by auto
  have e: "(x div 4) * 4 + ((x mod 4) * 16) div 16 = x" by simp
  have "char_of x = a" by (simp add: x_def)
  then show ?case
    using e by (simp add: Let_def x_def[symmetric] a2b_data[OF i1] a2b_data[OF i2] a2b_pad
                  del: a2b_base64.simps(2))
next
  case (3 a b)
  define x where "x = (of_char a :: nat)"
  define y where "y = (of_char b :: nat)"
  have x: "x < 256" and y: "y < 256" by (simp_all add: x_def y_def)
  have i1: "x div 4 < 64" and i2: "(x mod 4) * 16 + y div 16 < 64" and i3: "(y mod 16) * 4 < 64"
    using x y by auto
  have e1: "(x div 4) * 4 + ((x mod 4) * 16 + y div 16) div 16 = x" using y by simp
  have e2: "(((x mod 4) * 16 + y div 16) mod 16) * 16 + ((y mod 16) * 4) div 4 = y"
    using y by simp
  have "char_of x = a" "char_of y = b" by (simp_all add: x_def y_def)
  then show ?case
    using e1 e2
    by (simp add: Let_def x_def[symmetric] y_def[symmetric]
          a2b_data[OF i1] a2b_data[OF i2] a2b_data[OF i3] a2b_pad
          del: a2b_base64.simps(2))
next
  case (4 a b c rest)
  define x where "x = (of_char a :: nat)"
  define y where "y = (of_char b :: nat)"
  define z where "z = (of_char c :: nat)"
  have x: "x < 256" and y: "y < 256" and z: "z < 256" by (simp_all add: x_def y_def z_def)
  have i1: "x div 4 < 64" and i2: "(x mod 4) * 16 + y div 16 < 64"
    and i3: "(y mod 16) * 4 + z div 64 < 64" and i4: "z mod 64 < 64"
    using x y z by auto
  have e1: "(x div 4) * 4 + ((x mod 4) * 16 + y div 16) div 16 = x" using y by simp
  have e2: "(((x mod 4) * 16 + y div 16) mod 16) * 16 + ((y mod 16) * 4 + z div 64) div 4 = y"
    using y z by simp
  have e3: "(((y mod 16) * 4 + z div 64) mod 4) * 64 + z mod 64 = z"
    using z by simp
  have "char_of x = a" "char_of y = b" "char_of z = c" by (simp_all add: x_def y_def z_def)
  then show ?case
    using e1 e2 e3 "4.IH"
    by (simp add: Let_def x_def[symmetric] y_def[symmetric] z_def[symmetric]
          a2b_data[OF i1] a2b_data[OF i2] a2b_data[OF i3] a2b_data[OF i4]
          del: a2b_base64.simps(2))
qed

lemma b64_roundtrip: "urlsafe_b64decode (urlsafe_b64encode bs) = Inr bs"
  by (simp add: urlsafe_b64decode_def urlsafe_b64encode_def b64_roundtrip_gen)

section \<open>Zero-padded decimal numbers\<close>

lemma dec_digits_zero: "dec_digits w 0 = replicate w 0"
  by (induction w) (simp_all add: replicate_append_same)

lemma length_dec_digits [simp]: "length (dec_digits w n) = w"
  by (induction w arbitrary: n) simp_all

lemma dec_digits_lt: "d \<in> set (dec_digits w n) \<Longrightarrow> d < 10"
  by (induction w arbitrary: n) auto

lemma digit_char_0: "digit_char 0 = CHR ''0''"
  by code_simp

lemma zero_pad_digits:
  "n < 10 ^ w \<Longrightarrow> 0 < w \<Longrightarrow> zero_pad w n = map digit_char (dec_digits w n)"
proof (induction w arbitrary: n)
  case 0
  then show ?case by simp
next
  case (Suc w)
  show ?case
  proof (cases "n < 10")
    case True
    then have "str_of_nat n = [digit_char n]" by (simp add: str_of_nat.simps)
    with True show ?thesis
      by (simp add: zero_pad_def dec_digits_zero digit_char_0 replicate_append_same[symmetric])
  next
    case False
    then have s: "str_of_nat n = str_of_nat (n div 10) @ [digit_char (n mod 10)]"
      by (subst str_of_nat.simps) simp
    from False Suc.prems have w: "0 < w" by (cases w) auto
    from Suc.prems have "n div 10 < 10 ^ w" by (simp add: less_mult_imp_div_less mult.commute)
    from Suc.IH[OF this w] show ?thesis
      by (simp add: zero_pad_def s)
  qed
qed

lemma length_zero_pad [simp]: "n < 10 ^ w \<Longrightarrow> 0 < w \<Longrightarrow> length (zero_pad w n) = w"
  by (simp add: zero_pad_digits)

lemma digit_value_digit_char: "d < 10 \<Longrightarrow> digit_value (digit_char d) = Some d"
  by (simp add: digit_value_def digit_char_def is_digit_def in_range_def byte_def)

lemma digits_acc_map:
  "\<forall>d \<in> set ds. d < 10 \<Longrightarrow>
   digits_acc a (map digit_char ds) = Some (foldl (\<lambda>a d. a * 10 + d) a ds)"
  by (induction ds arbitrary: a) (simp_all add: digit_value_digit_char)

lemma foldl_dec_digits:
  "foldl (\<lambda>a d. a * 10 + d) a (dec_digits w n) = a * 10 ^ w + n mod 10 ^ w"
proof (induction w arbitrary: n a)
  case 0
  then show ?case by simp
next
  case (Suc w)
  have "(a * 10 ^ w + n div 10 mod 10 ^ w) * 10 + n mod 10 = a * 10 ^ Suc w + n mod 10 ^ Suc w"
    by (simp add: algebra_simps mod_mult2_eq)
  then show ?case by (simp add: Suc.IH)
qed

lemma fixed_digits_zero_pad:
  "n < 10 ^ w \<Longrightarrow> 0 < w \<Longrightarrow> fixed_digits w (zero_pad w n) = Some n"
  by (simp add: fixed_digits_def zero_pad_digits digits_acc_map dec_digits_lt foldl_dec_digits)

section \<open>isoformat round trip\<close>

lemma is_digit_digit_char: "d < 10 \<Longrightarrow> is_digit (digit_char d)"
  by (simp add: digit_char_def is_digit_def in_range_def byte_def)

lemma zero_pad_is_digit:
  "n < 10 ^ w \<Longrightarrow> 0 < w \<Longrightarrow> c \<in> set (zero_pad w n) \<Longrightarrow> is_digit c"
  by (auto simp: zero_pad_digits is_digit_digit_char dest: dec_digits_lt)

lemma is_digit_not_special:
  "is_digit c \<Longrightarrow> \<not> is_sign c \<and> \<not> is_continuation c \<and> c \<noteq> CHR '':'' \<and> c \<noteq> CHR ''.''"
  by (auto simp: is_digit_def is_sign_def is_continuation_def in_range_def byte_def)

lemma parse_date_zero_pad:
  assumes "y < 10000" "m < 100" "d < 100"
  shows "parse_isoformat_date (zero_pad 4 y @ ''-'' @ zero_pad 2 m @ ''-'' @ zero_pad 2 d)
         = Some (y, m, d)"
proof -
  have l: "length (zero_pad 4 y) = 4" "length (zero_pad 2 m) = 2" "length (zero_pad 2 d) = 2"
    using assms by (simp_all add: length_zero_pad)
  have f: "fixed_digits 4 (zero_pad 4 y) = Some y" "fixed_digits 2 (zero_pad 2 m) = Some m"
    "fixed_digits 2 (zero_pad 2 d) = Some d"
    using assms by (simp_all add: fixed_digits_zero_pad)
  show ?thesis
    by (simp add: parse_isoformat_date_def l f)
qed

lemma parse_fraction_zero_pad:
  assumes "u < 1000000"
  shows "parse_fraction (if u \<noteq> 0 then ''.'' @ zero_pad 6 u else []) = Some u"
proof -
  have l: "length (zero_pad 6 u) = 6" using assms by (simp add: length_zero_pad)
  have f: "fixed_digits 6 (zero_pad 6 u) = Some u" using assms by (simp add: fixed_digits_zero_pad)
  show ?thesis by (simp add: parse_fraction_def l f)
qed

lemma parse_time_zero_pad:
  assumes "h < 100" "m < 100" "s < 100" "parse_fraction frac = Some u"
  shows "parse_hh_mm_ss_ff (zero_pad 2 h @ '':'' @ zero_pad 2 m @ '':'' @ zero_pad 2 s @ frac)
         = Some (h, m, s, u)"
proof -
  have l: "length (zero_pad 2 h) = 2" "length (zero_pad 2 m) = 2" "length (zero_pad 2 s) = 2"
    using assms by (simp_all add: length_zero_pad)
  have f: "fixed_digits 2 (zero_pad 2 h) = Some h" "fixed_digits 2 (zero_pad 2 m) = Some m"
    "fixed_digits 2 (zero_pad 2 s) = Some s"
    using assms by (simp_all add: fixed_digits_zero_pad)
  show ?thesis
    by (simp add: parse_hh_mm_ss_ff_def l f assms(4))
qed

lemma parse_time_hh_mm:
  assumes "h < 100" "m < 100"
  shows "parse_hh_mm_ss_ff (zero_pad 2 h @ '':'' @ zero_pad 2 m) = Some (h, m, 0, 0)"
proof -
  have l: "length (zero_pad 2 h) = 2" "length (zero_pad 2 m) = 2"
    using assms by (simp_all add: length_zero_pad)
  have f: "fixed_digits 2 (zero_pad 2 h) = Some h" "fixed_digits 2 (zero_pad 2 m) = Some m"
    using assms by (simp_all add: fixed_digits_zero_pad)
  show ?thesis
    by (simp add: parse_hh_mm_ss_ff_def l f)
qed


lemma hms: fixes b :: nat shows "b div 3600 * 3600 + b div 60 mod 60 * 60 + b mod 60 = b"
proof -
  define x where "x = b div 60"
  have 1: "b div 3600 = x div 60" unfolding x_def by (simp add: div_mult2_eq)
  have 2: "x div 60 * 60 + x mod 60 = x" by simp
  have 3: "x * 60 + b mod 60 = b" unfolding x_def by simp
  have "x div 60 * 3600 + x mod 60 * 60 = x * 60" using 2 by linarith
  with 3 show ?thesis by (simp add: 1 x_def[symmetric])
qed

lemma offset_arith:
  fixes a :: nat
  shows "(a div 3600000000 * 3600 + a div 60000000 mod 60 * 60 + a div 1000000 mod 60) * 1000000
         + a mod 1000000 = a"
proof -
  define b where "b = a div 1000000"
  have 1: "a div 3600000000 = b div 3600"
    unfolding b_def by (simp add: div_mult2_eq)
  have 2: "a div 60000000 = b div 60"
    unfolding b_def by (simp add: div_mult2_eq)
  have "b * 1000000 + a mod 1000000 = a"
    unfolding b_def by simp
  then show ?thesis
    by (simp add: 1 2 b_def[symmetric] hms)
qed

lemma format_offset_parse:
  assumes "abs off < 86400000000"
  shows "\<exists>tz. format_offset (Some off) = (if off < 0 then CHR ''-'' else CHR ''+'') # tz
              \<and> parse_offset tz = Some (nat (abs off))"
proof -
  define a where "a = nat (abs off)"
  define hh where "hh = a div 3600000000"
  define mm where "mm = (a div 60000000) mod 60"
  define ss where "ss = (a div 1000000) mod 60"
  define us where "us = a mod 1000000"
  have a: "a < 86400000000" using assms by (simp add: a_def)
  have b: "hh < 100" "mm < 100" "ss < 100" "us < 1000000"
    using a by (simp_all add: hh_def mm_def ss_def us_def less_mult_imp_div_less)
  have l: "length (zero_pad 2 hh) = 2" "length (zero_pad 2 mm) = 2"
    "length (zero_pad 2 ss) = 2" "length (zero_pad 6 us) = 6"
    using b by (simp_all add: length_zero_pad)
  have tot: "(hh * 3600 + mm * 60 + ss) * 1000000 + us = a"
    unfolding hh_def mm_def ss_def us_def by (rule offset_arith)
  define tz where "tz = zero_pad 2 hh @ '':'' @ zero_pad 2 mm
      @ (if ss \<noteq> 0 \<or> us \<noteq> 0
         then '':'' @ zero_pad 2 ss @ (if us \<noteq> 0 then ''.'' @ zero_pad 6 us else [])
         else [])"
  have f: "format_offset (Some off) = (if off < 0 then CHR ''-'' else CHR ''+'') # tz"
    by (simp add: format_offset_def Let_def tz_def a_def hh_def mm_def ss_def us_def)
  have p: "parse_offset tz = Some a"
  proof (cases "ss \<noteq> 0 \<or> us \<noteq> 0")
    case False
    then have "tz = zero_pad 2 hh @ '':'' @ zero_pad 2 mm" by (simp add: tz_def)
    moreover from False tot have "(hh * 3600 + mm * 60) * 1000000 = a" by simp
    ultimately show ?thesis
      using parse_time_hh_mm[OF b(1) b(2)] by (simp add: parse_offset_def l)
  next
    case True
    then have t: "tz = zero_pad 2 hh @ '':'' @ zero_pad 2 mm @ '':'' @ zero_pad 2 ss
                     @ (if us \<noteq> 0 then ''.'' @ zero_pad 6 us else [])"
      by (simp add: tz_def)
    have "parse_hh_mm_ss_ff tz = Some (hh, mm, ss, us)"
      unfolding t using parse_time_zero_pad[OF b(1) b(2) b(3) parse_fraction_zero_pad[OF b(4)]] .
    then show ?thesis
      using tot by (simp add: parse_offset_def t l)
  qed
  from f p show ?thesis by (auto simp: a_def)
qed

lemma takeWhile_dropWhile_split:
  assumes "\<forall>c \<in> set xs. P c" "ys = [] \<or> \<not> P (hd ys)"
  shows "takeWhile P (xs @ ys) = xs" "dropWhile P (xs @ ys) = ys"
proof -
  show "takeWhile P (xs @ ys) = xs"
    using assms by (cases ys) (simp_all add: takeWhile_append2)
  show "dropWhile P (xs @ ys) = ys"
    using assms by (cases ys) (simp_all add: dropWhile_append2)
qed

lemma valid_datetime_bounds:
  assumes "valid_datetime dt"
  shows "year dt < 10000" "month dt < 100" "day dt < 100" "hour dt < 100" "minute dt < 100"
    "second dt < 100" "microsecond dt < 1000000"
  using assms by (auto simp: valid_datetime_def days_in_month_def split: if_splits)

lemma isoformat_roundtrip:
  assumes v: "valid_datetime dt"
  shows "fromisoformat_str (isoformat dt) = Inr dt"
proof -
  note b = valid_datetime_bounds[OF v]
  define D where "D = zero_pad 4 (year dt) @ ''-'' @ zero_pad 2 (month dt) @ ''-''
                       @ zero_pad 2 (day dt)"
  define F where "F = (if microsecond dt \<noteq> 0 then ''.'' @ zero_pad 6 (microsecond dt) else [])"
  define T where "T = zero_pad 2 (hour dt) @ '':'' @ zero_pad 2 (minute dt) @ '':''
                       @ zero_pad 2 (second dt) @ F"
  define Z where "Z = format_offset (tzinfo dt)"
  have iso: "isoformat dt = D @ CHR ''T'' # T @ Z"
    by (simp add: isoformat_def D_def T_def F_def Z_def)
  have lD: "length D = 10"
    using b by (simp add: D_def length_zero_pad)
  have pD: "parse_isoformat_date D = Some (year dt, month dt, day dt)"
    unfolding D_def using parse_date_zero_pad[OF b(1) b(2) b(3)] .
  have pT: "parse_hh_mm_ss_ff T = Some (hour dt, minute dt, second dt, microsecond dt)"
    unfolding T_def F_def
    using parse_time_zero_pad[OF b(4) b(5) b(6) parse_fraction_zero_pad[OF b(7)]] .
  have digT: "\<forall>c \<in> set T. \<not> is_sign c \<and> \<not> is_continuation c"
  proof
    fix c assume "c \<in> set T"
    then have "is_digit c \<or> c = CHR '':'' \<or> c = CHR ''.''"
      using zero_pad_is_digit[of "hour dt" 2 c] zero_pad_is_digit[of "minute dt" 2 c]
        zero_pad_is_digit[of "second dt" 2 c] zero_pad_is_digit[of "microsecond dt" 6 c] b
      by (auto simp: T_def F_def split: if_splits)
    then show "\<not> is_sign c \<and> \<not> is_continuation c"
      using is_digit_not_special[of c]
      by (auto simp: is_sign_def is_continuation_def)
  qed
  have neT: "T \<noteq> []"
    using b(4) length_zero_pad[of "hour dt" 2] by (auto simp: T_def)
  have dwc: "dropWhile is_continuation (T @ Z) = T @ Z"
    using neT digT by (cases T) auto
  have Zs: "Z = [] \<or> is_sign (hd Z)"
  proof (cases "tzinfo dt")
    case None
    then show ?thesis by (simp add: Z_def format_offset_def)
  next
    case (Some off)
    then have "abs off < 86400000000" using v by (simp add: valid_datetime_def)
    from format_offset_parse[OF this] Some show ?thesis
      by (auto simp: Z_def is_sign_def)
  qed
  have tw: "takeWhile (\<lambda>c. \<not> is_sign c) (T @ Z) = T"
    and dw: "dropWhile (\<lambda>c. \<not> is_sign c) (T @ Z) = Z"
    using takeWhile_dropWhile_split[of T "\<lambda>c. \<not> is_sign c" Z] digT Zs by auto
  have rec: "\<lparr>year = year dt, month = month dt, day = day dt, hour = hour dt,
               minute = minute dt, second = second dt, microsecond = microsecond dt,
               tzinfo = tzinfo dt\<rparr> = dt"
    by simp
  show ?thesis
  proof (cases "tzinfo dt")
    case None
    then have Z0: "Z = []" by (simp add: Z_def format_offset_def)
    have dwc0: "dropWhile is_continuation T = T" using dwc Z0 by simp
    have tw0: "takeWhile (\<lambda>c. \<not> is_sign c) T = T" using tw Z0 by simp
    have dw0: "dropWhile (\<lambda>c. \<not> is_sign c) T = []" using dw Z0 by simp
    have recN: "\<lparr>year = year dt, month = month dt, day = day dt, hour = hour dt,
               minute = minute dt, second = second dt, microsecond = microsecond dt,
               tzinfo = None\<rparr> = dt"
      using rec None by simp
    show ?thesis
      using v
      by (simp add: fromisoformat_str_def iso Z0 lD pD dwc0 tw0 dw0 pT make_datetime_def Let_def
            recN)
  next
    case (Some off)
    then have "abs off < 86400000000" using v by (simp add: valid_datetime_def)
    from format_offset_parse[OF this] obtain tz where
      z: "format_offset (Some off) = (if off < 0 then CHR ''-'' else CHR ''+'') # tz"
      and p: "parse_offset tz = Some (nat (abs off))" by blast
    have Z: "Z = (if off < 0 then CHR ''-'' else CHR ''+'') # tz"
      using z Some by (simp add: Z_def)
    have sg: "(if (if off < 0 then CHR ''-'' else CHR ''+'') = CHR ''-''
               then - int (nat (abs off)) else int (nat (abs off))) = off"
      by simp
    have recS: "\<lparr>year = year dt, month = month dt, day = day dt, hour = hour dt,
               minute = minute dt, second = second dt, microsecond = microsecond dt,
               tzinfo = Some off\<rparr> = dt"
      using rec Some by simp
    have dwcS: "dropWhile is_continuation (T @ (if off < 0 then CHR ''-'' else CHR ''+'') # tz)
                = T @ (if off < 0 then CHR ''-'' else CHR ''+'') # tz"
      using dwc Z by simp
    have twS: "takeWhile (\<lambda>c. \<not> is_sign c) (T @ (if off < 0 then CHR ''-'' else CHR ''+'') # tz)
               = T"
      using tw Z by simp
    have dwS: "dropWhile (\<lambda>c. \<not> is_sign c) (T @ (if off < 0 then CHR ''-'' else CHR ''+'') # tz)
               = (if off < 0 then CHR ''-'' else CHR ''+'') # tz"
      using dw Z by simp
    have res: "make_datetime (year dt, month dt, day dt)
                 (hour dt, minute dt, second dt, microsecond dt) (Some off) = Inr dt"
      using v by (simp add: make_datetime_def Let_def recS)
    have "fromisoformat_str (isoformat dt) =
          make_datetime (year dt, month dt, day dt)
            (hour dt, minute dt, second dt, microsecond dt)
            (Some (if (if off < 0 then CHR ''-'' else CHR ''+'') = CHR ''-''
                   then - int (nat (abs off)) else int (nat (abs off))))"
      by (simp only: fromisoformat_str_def iso Z lD pD dwcS twS dwS pT p Let_def
            take_append drop_append take_all drop_all list.case option.case
            append_Nil append_Nil2 diff_self_eq_0 take_0 drop_0 order_refl
            list.simps)
    then show ?thesis
      using res sg by (simp only:)
  qed
qed

section \<open>JSON round trip of the cursor dictionary\<close>

lemma plain_char_props:
  assumes "plain_char c"
  shows "byte c < 128" "byte c < 192" "\<not> byte c < 32" "c \<noteq> CHR 0x22" "c \<noteq> CHR 0x5C"
  using assms by (auto simp: plain_char_def)

lemma code_points_ascii: "\<forall>c \<in> set s. byte c < 192 \<Longrightarrow> code_points s = map byte s"
  by (induction s) simp_all

lemma escape_plain: "plain_char c \<Longrightarrow> escape_code_point (byte c) = [c]"
proof -
  assume p: "plain_char c"
  have c: "char_of (byte c) = c" by (simp add: byte_def)
  have q: "char_of (34 :: nat) = CHR 0x22" "char_of (92 :: nat) = CHR 0x5C" by code_simp+
  have n: "byte c \<noteq> 34" "byte c \<noteq> 92"
    using p q c by (auto simp: plain_char_def)
  have r: "32 \<le> byte c" "byte c \<le> 126" using p by (auto simp: plain_char_def)
  then have m: "byte c \<noteq> 8" "byte c \<noteq> 12" "byte c \<noteq> 10" "byte c \<noteq> 13" "byte c \<noteq> 9"
    by auto
  show ?thesis
    unfolding escape_code_point_def using n m r c by simp
qed

lemma encode_basestring_plain:
  assumes "\<forall>c \<in> set s. plain_char c"
  shows "encode_basestring_ascii s = CHR 0x22 # s @ [CHR 0x22]"
proof -
  have "code_points s = map byte s"
    using assms by (intro code_points_ascii) (auto dest: plain_char_props(2))
  moreover have "concat (map escape_code_point (map byte s)) = s"
    using assms by (induction s) (simp_all add: escape_plain)
  ultimately show ?thesis by (simp add: encode_basestring_ascii_def)
qed

lemma scanstring_plain:
  "\<forall>c \<in> set s. plain_char c \<Longrightarrow> scanstring (s @ CHR 0x22 # rest) = Some (s, rest)"
  by (induction s) (auto simp: prepend_def dest: plain_char_props)

lemma utf8_valid_ascii: "\<forall>c \<in> set s. byte c < 128 \<Longrightarrow> utf8_valid s"
  by (induction s) simp_all


lemma cursor_json_dumps:
  assumes "\<forall>c \<in> set tid. plain_char c" "\<forall>c \<in> set ts. plain_char c"
  shows "json_dumps True (JObj [(''id'', JStr tid), (''created_at'', JStr ts)])
         = ''{'' @ [CHR 0x22] @ ''created_at'' @ [CHR 0x22] @ '': '' @ [CHR 0x22] @ ts @ [CHR 0x22]
           @ '', '' @ [CHR 0x22] @ ''id'' @ [CHR 0x22] @ '': '' @ [CHR 0x22] @ tid @ [CHR 0x22] @ ''}''"
proof -
  have k: "encode_basestring_ascii ''id'' = [CHR 0x22] @ ''id'' @ [CHR 0x22]"
    "encode_basestring_ascii ''created_at'' = [CHR 0x22] @ ''created_at'' @ [CHR 0x22]"
    by (simp_all add: encode_basestring_plain plain_char_def byte_def)
  have o: "''created_at'' < ''id''" by simp
  have srt: "sort_key fst [(''id'', a), (''created_at'', b)] = [(''created_at'', b), (''id'', a)]"
    for a b :: string
    using o by (simp add: less_le_not_le)
  show ?thesis
    using assms by (simp add: Let_def srt k encode_basestring_plain del: sort_key_simps)
qed


lemma cursor_tokenize:
  assumes "\<forall>c \<in> set tid. plain_char c" "\<forall>c \<in> set ts. plain_char c"
  shows "tokenize (''{'' @ [CHR 0x22] @ ''created_at'' @ [CHR 0x22] @ '': '' @ [CHR 0x22] @ ts
            @ [CHR 0x22] @ '', '' @ [CHR 0x22] @ ''id'' @ [CHR 0x22] @ '': '' @ [CHR 0x22] @ tid
            @ [CHR 0x22] @ ''}'')
         = Some [TLBrace, TString ''created_at'', TColon, TString ts, TComma,
                 TString ''id'', TColon, TString tid, TRBrace]"
proof -
  have k1: "scanstring (''created_at'' @ CHR 0x22 # r) = Some (''created_at'', r)" for r
    by (rule scanstring_plain) (simp add: plain_char_def byte_def)
  have k2: "scanstring (''id'' @ CHR 0x22 # r) = Some (''id'', r)" for r
    by (rule scanstring_plain) (simp add: plain_char_def byte_def)
  have v1: "scanstring (ts @ CHR 0x22 # r) = Some (ts, r)" for r
    using assms(2) by (rule scanstring_plain)
  have v2: "scanstring (tid @ CHR 0x22 # r) = Some (tid, r)" for r
    using assms(1) by (rule scanstring_plain)
  have t1: "tokenize (CHR ''{'' # r) = cons_token TLBrace (tokenize r)" for r
    by (simp add: is_whitespace_def)
  have t2: "tokenize (CHR 0x22 # r) =
      (case scanstring r of None \<Rightarrow> None | Some (x, r') \<Rightarrow> cons_token (TString x) (tokenize r'))"
    for r
    by (simp add: is_whitespace_def)
  have t3: "tokenize (CHR '':'' # r) = cons_token TColon (tokenize r)" for r
    by (simp add: is_whitespace_def)
  have t4: "tokenize (CHR '','' # r) = cons_token TComma (tokenize r)" for r
    by (simp add: is_whitespace_def)
  have t5: "tokenize (CHR '' '' # r) = tokenize r" for r
    by (simp add: is_whitespace_def)
  have t6: "tokenize ''}'' = Some [TRBrace]"
    by (simp add: is_whitespace_def cons_token_def)
  have "tokenize (CHR ''{'' # CHR 0x22 # (''created_at'' @ CHR 0x22 # CHR '':'' # CHR '' ''
          # CHR 0x22 # (ts @ CHR 0x22 # CHR '','' # CHR '' '' # CHR 0x22
          # (''id'' @ CHR 0x22 # CHR '':'' # CHR '' '' # CHR 0x22 # (tid @ CHR 0x22 # ''}'')))))
        = Some [TLBrace, TString ''created_at'', TColon, TString ts, TComma,
                 TString ''id'', TColon, TString tid, TRBrace]"
    by (simp only: t1 t2 t3 t4 t5 t6 k1 k2 v1 v2 option.case prod.case cons_token_def)
  then show ?thesis by simp
qed

lemma cursor_json_loads:
  assumes "\<forall>c \<in> set tid. plain_char c" "\<forall>c \<in> set ts. plain_char c"
  shows "json_loads (json_dumps True (JObj [(''id'', JStr tid), (''created_at'', JStr ts)]))
         = Inr (JObj [(''created_at'', JStr ts), (''id'', JStr tid)])"
proof -
  have "parse_tokens PValue [] [TLBrace, TString ''created_at'', TColon, TString ts, TComma,
                 TString ''id'', TColon, TString tid, TRBrace]
        = Some (JObj [(''created_at'', JStr ts), (''id'', JStr tid)])"
    by (simp add: parse_step_def start_value_def read_key_def close_object_def)
  then show ?thesis
    unfolding cursor_json_dumps[OF assms] json_loads_def cursor_tokenize[OF assms] by simp
qed

lemma cursor_json_ascii:
  assumes "\<forall>c \<in> set tid. plain_char c" "\<forall>c \<in> set ts. plain_char c"
  shows "bytes_decode (json_dumps True (JObj [(''id'', JStr tid), (''created_at'', JStr ts)]))
         = Inr (json_dumps True (JObj [(''id'', JStr tid), (''created_at'', JStr ts)]))"
proof -
  have "\<forall>c \<in> set (json_dumps True (JObj [(''id'', JStr tid), (''created_at'', JStr ts)])).
          byte c < 128"
    unfolding cursor_json_dumps[OF assms]
    using assms plain_char_props(1)[unfolded byte_def] by (auto simp: byte_def)
  then show ?thesis
    by (simp add: bytes_decode_def utf8_valid_ascii)
qed

section \<open>The output of isoformat and of str(uuid) needs no escaping\<close>

lemma is_digit_plain: "is_digit c \<Longrightarrow> plain_char c"
  by (auto simp: is_digit_def plain_char_def in_range_def byte_def)

lemma zero_pad_plain: "n < 10 ^ w \<Longrightarrow> 0 < w \<Longrightarrow> \<forall>c \<in> set (zero_pad w n). plain_char c"
  using zero_pad_is_digit is_digit_plain by blast

lemma plain_append:
  "(\<forall>c \<in> set (xs @ ys). plain_char c) =
   ((\<forall>c \<in> set xs. plain_char c) \<and> (\<forall>c \<in> set ys. plain_char c))"
  by auto

lemma plain_punctuation:
  "\<forall>c \<in> set ''-''. plain_char c" "\<forall>c \<in> set ''+''. plain_char c"
  "\<forall>c \<in> set '':''. plain_char c" "\<forall>c \<in> set ''.''. plain_char c"
  "\<forall>c \<in> set ''T''. plain_char c" "\<forall>c \<in> set []. plain_char c"
  by (simp_all add: plain_char_def byte_def)

lemma format_offset_plain:
  assumes "abs off < 86400000000"
  shows "\<forall>c \<in> set (format_offset (Some off)). plain_char c"
proof -
  define a where "a = nat (abs off)"
  have a: "a < 86400000000" using assms by (simp add: a_def)
  have b: "a div 3600000000 < 10 ^ 2" "(a div 60000000) mod 60 < 10 ^ 2"
    "(a div 1000000) mod 60 < 10 ^ 2" "a mod 1000000 < 10 ^ 6"
    using a by (simp_all add: less_mult_imp_div_less)
  note z = zero_pad_plain[OF b(1)] zero_pad_plain[OF b(2)] zero_pad_plain[OF b(3)]
    zero_pad_plain[OF b(4)]
  have s: "\<forall>c \<in> set (if off < 0 then ''-'' else ''+''). plain_char c"
    using plain_punctuation by (cases "off < 0") simp_all
  have u: "\<forall>c \<in> set (if a mod 1000000 \<noteq> 0 then ''.'' @ zero_pad 6 (a mod 1000000) else []).
             plain_char c"
    using z(4) plain_punctuation(4)
    by (cases "a mod 1000000 \<noteq> 0") (simp_all only: if_True if_False plain_append, simp_all)
  have t: "\<forall>c \<in> set (if (a div 1000000) mod 60 \<noteq> 0 \<or> a mod 1000000 \<noteq> 0
                       then '':'' @ zero_pad 2 ((a div 1000000) mod 60)
                            @ (if a mod 1000000 \<noteq> 0 then ''.'' @ zero_pad 6 (a mod 1000000)
                               else [])
                       else []). plain_char c"
    using z(3) u plain_punctuation(3)
    by (cases "(a div 1000000) mod 60 \<noteq> 0 \<or> a mod 1000000 \<noteq> 0")
       (simp_all only: if_True if_False plain_append, simp_all)
  have "format_offset (Some off) =
      (if off < 0 then ''-'' else ''+'') @ zero_pad 2 (a div 3600000000) @ '':''
       @ zero_pad 2 ((a div 60000000) mod 60)
       @ (if (a div 1000000) mod 60 \<noteq> 0 \<or> a mod 1000000 \<noteq> 0
          then '':'' @ zero_pad 2 ((a div 1000000) mod 60)
               @ (if a mod 1000000 \<noteq> 0 then ''.'' @ zero_pad 6 (a mod 1000000) else [])
          else [])"
    by (simp only: format_offset_def option.case Let_def a_def)
  then show ?thesis
    using s z(1) z(2) t plain_punctuation(3) by (simp only: plain_append; simp)
qed

lemma isoformat_plain:
  assumes v: "valid_datetime dt"
  shows "\<forall>c \<in> set (isoformat dt). plain_char c"
proof -
  note b = valid_datetime_bounds[OF v]
  have b': "year dt < 10 ^ 4" "month dt < 10 ^ 2" "day dt < 10 ^ 2" "hour dt < 10 ^ 2"
    "minute dt < 10 ^ 2" "second dt < 10 ^ 2" "microsecond dt < 10 ^ 6"
    using b by simp_all
  note z = zero_pad_plain[OF b'(1)] zero_pad_plain[OF b'(2)] zero_pad_plain[OF b'(3)]
    zero_pad_plain[OF b'(4)] zero_pad_plain[OF b'(5)] zero_pad_plain[OF b'(6)]
    zero_pad_plain[OF b'(7)]
  have o: "\<forall>c \<in> set (format_offset (tzinfo dt)). plain_char c"
  proof (cases "tzinfo dt")
    case None
    then show ?thesis by (simp add: format_offset_def)
  next
    case (Some off)
    then have "abs off < 86400000000" using v by (simp add: valid_datetime_def)
    then show ?thesis using format_offset_plain[of off] Some by simp
  qed
  have u: "\<forall>c \<in> set (if microsecond dt \<noteq> 0 then ''.'' @ zero_pad 6 (microsecond dt) else []).
             plain_char c"
    using z(7) plain_punctuation(4)
    by (cases "microsecond dt \<noteq> 0") (simp_all only: if_True if_False plain_append, simp_all)
  show ?thesis
    unfolding isoformat_def
    using z(1-6) u o plain_punctuation by (simp only: plain_append; simp)
qed

lemma plain_char_byte:
  "32 \<le> byte c \<Longrightarrow> byte c \<le> 126 \<Longrightarrow> byte c \<noteq> 34 \<Longrightarrow> byte c \<noteq> 92 \<Longrightarrow> plain_char c"
  by (auto simp: plain_char_def byte_def)

lemma hex_digit_plain: "d < 16 \<Longrightarrow> plain_char (hex_digit d)"
  by (rule plain_char_byte) (simp_all add: hex_digit_def byte_def)

lemma hex_fixed_plain: "\<forall>c \<in> set (hex_fixed w n). plain_char c"
  by (induction w arbitrary: n) (simp_all add: hex_digit_plain)

lemma uuid_str_plain: "\<forall>c \<in> set (uuid_str u). plain_char c"
proof -
  define h where "h = hex_fixed 32 u"
  have h: "\<forall>c \<in> set h. plain_char c" unfolding h_def by (rule hex_fixed_plain)
  have tk: "\<forall>c \<in> set (take n xs). plain_char c" if "\<forall>c \<in> set xs. plain_char c"
    for n and xs :: string
    using that by (meson in_set_takeD)
  have dr: "\<forall>c \<in> set (drop n xs). plain_char c" if "\<forall>c \<in> set xs. plain_char c"
    for n and xs :: string
    using that by (meson in_set_dropD)
  have "uuid_str u = take 8 h @ ''-'' @ take 4 (drop 8 h) @ ''-'' @ take 4 (drop 12 h) @ ''-''
         @ take 4 (drop 16 h) @ ''-'' @ drop 20 h"
    by (simp only: uuid_str_def Let_def h_def)
  then show ?thesis
    using tk[OF h, of 8] tk[OF dr[OF h, of 8], of 4] tk[OF dr[OF h, of 12], of 4]
      tk[OF dr[OF h, of 16], of 4] dr[OF h, of 20] plain_punctuation(1)
    by (simp only: plain_append; simp)
qed

section \<open>Cursor round trip\<close>

lemma cursor_roundtrip_plain:
  assumes t: "\<forall>c \<in> set tid. plain_char c" and v: "valid_datetime created"
  shows "decode_cursor (encode_cursor tid created) = Inr (Some (JStr tid, created))"
proof -
  have i: "\<forall>c \<in> set (isoformat created). plain_char c"
    by (rule isoformat_plain[OF v])
  have g: "getitem (JObj [(''created_at'', JStr (isoformat created)), (''id'', JStr tid)]) ''id''
           = Inr (JStr tid)"
    "getitem (JObj [(''created_at'', JStr (isoformat created)), (''id'', JStr tid)]) ''created_at''
           = Inr (JStr (isoformat created))"
    by (simp_all add: getitem_def)
  define j where
    "j = json_dumps True (JObj [(''id'', JStr tid), (''created_at'', JStr (isoformat created))])"
  have e: "encode_cursor tid created = urlsafe_b64encode j"
    by (simp only: encode_cursor_def Let_def j_def)
  have d1: "urlsafe_b64decode (urlsafe_b64encode j) = Inr j"
    by (rule b64_roundtrip)
  have d2: "bytes_decode j = Inr j"
    unfolding j_def by (rule cursor_json_ascii[OF t i])
  have d3: "json_loads j = Inr (JObj [(''created_at'', JStr (isoformat created)), (''id'', JStr tid)])"
    unfolding j_def by (rule cursor_json_loads[OF t i])
  have d4: "fromisoformat (JStr (isoformat created)) = Inr created"
    by (simp add: fromisoformat_def isoformat_roundtrip[OF v])
  have "decode_cursor_try (encode_cursor tid created) = Inr (JStr tid, created)"
    unfolding decode_cursor_try_def e by (simp add: d1 d2 d3 g d4)
  then show ?thesis by (simp add: decode_cursor_def)
qed

text \<open>
  C8: for the string \<open>str(u)\<close> of any UUID \<open>u\<close> and any \<open>datetime\<close> value \<open>created\<close> that the
  constructor of \<open>datetime\<close> accepts (naive, or aware with any offset),
  \<open>decode_cursor(encode_cursor(str(u), created))\<close> raises nothing, is not \<open>None\<close>, and is the
  dictionary with \<open>id\<close> the same string and \<open>created_at\<close> the same \<open>datetime\<close>: the same
  fields and the same UTC offset.
\<close>

theorem cursor_roundtrip:
  "valid_datetime created \<Longrightarrow>
   decode_cursor (encode_cursor (uuid_str u) created) = Inr (Some (JStr (uuid_str u), created))"
  using cursor_roundtrip_plain[of "uuid_str u" created] uuid_str_plain[of u] by blast

theorem cursor_roundtrip_witness:
  "valid_datetime \<lparr> year = 2024, month = 2, day = 29, hour = 23, minute = 59, second = 58,
                    microsecond = 123456, tzinfo = Some (- 10800000000) \<rparr>
   \<and> decode_cursor (encode_cursor (uuid_str 1311768467294899695)
        \<lparr> year = 2024, month = 2, day = 29, hour = 23, minute = 59, second = 58,
          microsecond = 123456, tzinfo = Some (- 10800000000) \<rparr>)
     = Inr (Some (JStr (uuid_str 1311768467294899695),
        \<lparr> year = 2024, month = 2, day = 29, hour = 23, minute = 59, second = 58,
          microsecond = 123456, tzinfo = Some (- 10800000000) \<rparr>))"
  using cursor_roundtrip[of "\<lparr> year = 2024, month = 2, day = 29, hour = 23, minute = 59,
      second = 58, microsecond = 123456, tzinfo = Some (- 10800000000) \<rparr>" 1311768467294899695]
  by (simp add: valid_datetime_def days_in_month_def is_leap_def)

section \<open>Cache keys\<close>

lemma str_prefix_Nil: "str_prefix (Suc n) s = [] \<longleftrightarrow> s = []"
  by (cases s) simp_all

lemma cursor_key_same:
  assumes "str_prefix 20 c1 = str_prefix 20 c2"
  shows "build_cache_key_cursor uid filters (Some \<lparr> cursor = Some c1, limit = n \<rparr>)
       = build_cache_key_cursor uid filters (Some \<lparr> cursor = Some c2, limit = n \<rparr>)"
proof -
  have "(c1 = []) = (c2 = [])"
    using assms str_prefix_Nil[of 19 c1] str_prefix_Nil[of 19 c2] by simp
  then show ?thesis using assms by (simp add: build_cache_key_cursor_def)
qed

lemma after_request:
  assumes "enabled cache_service"
    and "get_transactions_cursor cache_service compute uid filters cp = Inr (page1, cache1)"
    and "build_cache_key_cursor uid filters cp' = build_cache_key_cursor uid filters cp"
  shows "get_transactions_cursor cache1 compute' uid filters cp' = Inr (page1, cache1)"
  using assms
  by (auto simp: get_transactions_cursor_def CacheService_get_def CacheService_set_def Let_def
           split: option.splits sum.splits)

text \<open>
  C10: two cursors with the same first 20 characters give the same cache key, whatever the
  user, the filter and the limit; so when the cache is switched on, once a request with
  the one cursor has been answered, a request that differs only in the cursor is answered
  with that same page, whatever the stores would give for it, and leaves the cache as it
  is.
\<close>

theorem cursor_key_prefix:
  "str_prefix 20 c1 = str_prefix 20 c2 \<Longrightarrow>
   build_cache_key_cursor uid filters (Some \<lparr> cursor = Some c1, limit = n \<rparr>)
     = build_cache_key_cursor uid filters (Some \<lparr> cursor = Some c2, limit = n \<rparr>)
   \<and> (enabled cache_service \<and>
        get_transactions_cursor cache_service compute uid filters
          (Some \<lparr> cursor = Some c1, limit = n \<rparr>) = Inr (page1, cache1)
        \<longrightarrow> get_transactions_cursor cache1 compute' uid filters
              (Some \<lparr> cursor = Some c2, limit = n \<rparr>) = Inr (page1, cache1))"
  using cursor_key_same[of c1 c2 uid filters n]
    after_request[of cache_service compute uid filters "Some \<lparr> cursor = Some c1, limit = n \<rparr>"
      page1 cache1 "Some \<lparr> cursor = Some c2, limit = n \<rparr>" compute']
  by simp

theorem cursor_key_prefix_witness:
  "str_prefix 20 ''AAAAAAAAAAAAAAAAAAAA1'' = str_prefix 20 ''AAAAAAAAAAAAAAAAAAAA2''
   \<and> enabled (empty_cache :: string CacheService)
   \<and> get_transactions_cursor empty_cache (\<lambda>u f cp. Inr ''page 1'') ''u1'' None
        (Some \<lparr> cursor = Some ''AAAAAAAAAAAAAAAAAAAA1'', limit = 20 \<rparr>)
      = Inr (''page 1'', CacheService_set empty_cache
               (build_cache_key_cursor ''u1'' None
                  (Some \<lparr> cursor = Some ''AAAAAAAAAAAAAAAAAAAA1'', limit = 20 \<rparr>)) ''page 1'')
   \<and> get_transactions_cursor
        (CacheService_set empty_cache
           (build_cache_key_cursor ''u1'' None
              (Some \<lparr> cursor = Some ''AAAAAAAAAAAAAAAAAAAA1'', limit = 20 \<rparr>)) ''page 1'')
        (\<lambda>u f cp. Inr ''page 2'') ''u1'' None
        (Some \<lparr> cursor = Some ''AAAAAAAAAAAAAAAAAAAA2'', limit = 20 \<rparr>)
      = Inr (''page 1'', CacheService_set empty_cache
               (build_cache_key_cursor ''u1'' None
                  (Some \<lparr> cursor = Some ''AAAAAAAAAAAAAAAAAAAA1'', limit = 20 \<rparr>)) ''page 1'')"
proof -
  have p: "str_prefix 20 ''AAAAAAAAAAAAAAAAAAAA1'' = str_prefix 20 ''AAAAAAAAAAAAAAAAAAAA2''"
    by (simp add: is_continuation_def)
  have e: "enabled (empty_cache :: string CacheService)"
    by (simp add: empty_cache_def)
  have f: "get_transactions_cursor empty_cache (\<lambda>u f cp. Inr ''page 1'') ''u1'' None
        (Some \<lparr> cursor = Some ''AAAAAAAAAAAAAAAAAAAA1'', limit = 20 \<rparr>)
      = Inr (''page 1'', CacheService_set empty_cache
               (build_cache_key_cursor ''u1'' None
                  (Some \<lparr> cursor = Some ''AAAAAAAAAAAAAAAAAAAA1'', limit = 20 \<rparr>)) ''page 1'')"
    by (simp add: get_transactions_cursor_def CacheService_get_def empty_cache_def Let_def)
  show ?thesis
    using cursor_key_prefix[OF p, of "''u1''" None 20 empty_cache "\<lambda>u f cp. Inr ''page 1''"
        "''page 1''" _ "\<lambda>u f cp. Inr ''page 2''"] p e f
    by blast
qed

text \<open>
  C2 does not hold of the code. The key of \<open>_build_cache_key\<close> leaves out \<open>start_date\<close>,
  \<open>end_date\<close>, \<open>min_amount\<close>, \<open>max_amount\<close> and \<open>metadata_filters\<close>: two queries that
  differ only there have the same key. In the example state, the query without a filter
  is answered from the table with both rows and cached; the query with \<open>min_amount\<close> 10.00
  is then answered from the cache with the same two rows, although the table gives it the
  row of 50.00 alone.
\<close>

theorem cache_key_omits_filters:
  "build_cache_key uid
       (Some (f\<lparr>start_date := sd, end_date := ed, min_amount := lo, max_amount := hi,
               metadata_filters := mf\<rparr>)) pagination
     = build_cache_key uid (Some f) pagination
   \<and> (case get_transactions empty_cache (page_from_repository example_db) ''u1''
              (Some no_filter) (Some first_page) of
         Inl e \<Rightarrow> False
       | Inr (page_a, cache_a) \<Rightarrow>
           map tx_id (items page_a) = [2, 1]
           \<and> (case get_transactions cache_a (page_from_repository example_db) ''u1''
                      (Some (no_filter\<lparr>min_amount := Some 1000\<rparr>)) (Some first_page) of
                 Inl e \<Rightarrow> False
               | Inr (page_b, cache_b) \<Rightarrow> map tx_id (items page_b) = [2, 1]))
   \<and> (case page_from_repository example_db ''u1''
              (Some (no_filter\<lparr>min_amount := Some 1000\<rparr>)) (Some first_page) of
         Inl e \<Rightarrow> False
       | Inr page_c \<Rightarrow> map tx_id (items page_c) = [2])"
proof -
  have k: "build_cache_key uid
       (Some (f\<lparr>start_date := sd, end_date := ed, min_amount := lo, max_amount := hi,
               metadata_filters := mf\<rparr>)) pagination
     = build_cache_key uid (Some f) pagination"
    by (simp add: build_cache_key_def)
  have k': "build_cache_key ''u1'' (Some (no_filter\<lparr>min_amount := Some 1000\<rparr>)) (Some first_page)
     = build_cache_key ''u1'' (Some no_filter) (Some first_page)"
    by (simp add: build_cache_key_def)
  have r: "user_id row_one = ''u1''" "user_id row_two = ''u1''"
    "amount row_one = 100" "amount row_two = 5000" "tx_id row_one = 1" "tx_id row_two = 2"
    by (simp_all add: row_one_def row_two_def example_row_def)
  have i: "order_key row_one < order_key row_two"
    by (simp add: order_key_def row_one_def row_two_def example_row_def instant_def
          days_from_civil_def)
  have o: "order_by_desc [row_one, row_two] = [row_two, row_one]"
    "order_by_desc [row_two] = [row_two]"
    using i by (simp_all add: order_by_desc_def)
  have a: "page_from_repository example_db ''u1'' (Some no_filter) (Some first_page)
     = Inr \<lparr> items = [row_two, row_one], total = 2,
             response_page = 1, response_page_size = 20, total_pages = 1 \<rparr>"
    by (simp add: page_from_repository_def get_by_user_id_def example_db_def o r
          apply_filters_def no_filter_def first_page_def sql_offset_def sql_limit_def Let_def)
  have c: "page_from_repository example_db ''u1'' (Some (no_filter\<lparr>min_amount := Some 1000\<rparr>))
             (Some first_page)
     = Inr \<lparr> items = [row_two], total = 1,
             response_page = 1, response_page_size = 20, total_pages = 1 \<rparr>"
    by (simp add: page_from_repository_def get_by_user_id_def example_db_def o r
          apply_filters_def no_filter_def first_page_def sql_offset_def sql_limit_def Let_def)
  have first: "get_transactions empty_cache (page_from_repository example_db) ''u1''
              (Some no_filter) (Some first_page)
     = Inr (\<lparr> items = [row_two, row_one], total = 2,
             response_page = 1, response_page_size = 20, total_pages = 1 \<rparr>,
            CacheService_set empty_cache
              (build_cache_key ''u1'' (Some no_filter) (Some first_page))
              \<lparr> items = [row_two, row_one], total = 2,
                response_page = 1, response_page_size = 20, total_pages = 1 \<rparr>)"
    by (simp add: get_transactions_def CacheService_get_def empty_cache_def a Let_def)
  have second: "get_transactions
        (CacheService_set empty_cache
              (build_cache_key ''u1'' (Some no_filter) (Some first_page))
              \<lparr> items = [row_two, row_one], total = 2,
                response_page = 1, response_page_size = 20, total_pages = 1 \<rparr>)
        (page_from_repository example_db) ''u1''
        (Some (no_filter\<lparr>min_amount := Some 1000\<rparr>)) (Some first_page)
     = Inr (\<lparr> items = [row_two, row_one], total = 2,
             response_page = 1, response_page_size = 20, total_pages = 1 \<rparr>,
            CacheService_set empty_cache
              (build_cache_key ''u1'' (Some no_filter) (Some first_page))
              \<lparr> items = [row_two, row_one], total = 2,
                response_page = 1, response_page_size = 20, total_pages = 1 \<rparr>)"
    by (simp add: get_transactions_def CacheService_get_def CacheService_set_def
          empty_cache_def k' Let_def)
  show ?thesis
    by (simp add: k first second c r)
qed

section \<open>The route of one record\<close>





end
